theory Spec2Isabelle
  imports Complex_Main "HOL-Library.Stream" "HOL-Library.Multiset"
begin

section \<open>BioSim: animals, cells and the island map\<close>

text \<open>
  A shallow embedding of \<^verbatim>\<open>biosim/Animal.py\<close>, \<^verbatim>\<open>biosim/Cell.py\<close>,
  \<^verbatim>\<open>biosim/Map.py\<close> and \<^verbatim>\<open>biosim/simulation_nograph.py\<close>.

  Python floats are modelled as reals, \<^verbatim>\<open>len\<close> as a natural number, ages as integers.
  An exception is a value \<open>Inl e\<close> of a sum type. The module-level generator of
  \<^verbatim>\<open>random\<close> is an explicit argument: the sequence of values that \<^verbatim>\<open>random()\<close>
  will return, the sequence of standard normal deviates that \<^verbatim>\<open>normalvariate\<close> will
  compute, and the sequence of raw integers behind \<^verbatim>\<open>_randbelow\<close>.
\<close>

subsection \<open>Errors and the random source\<close>

datatype py_error = TypeError | ValueError | KeyError | IndexError | ZeroDivisionError

record rng =
  uniforms :: "real stream"
  normals :: "real stream"
  integers :: "nat stream"

text \<open>
  Objects have an identity: \<^verbatim>\<open>list.remove\<close> and the keys of a \<^verbatim>\<open>dict\<close> compare animals
  by it. The run-time state therefore also holds the identity that the next constructed
  object will get.
\<close>

record runtime = rng +
  next_id :: nat

text \<open>\<^verbatim>\<open>random.random()\<close>: the next value of the generator, in \<open>[0, 1)\<close>.\<close>

definition random_float :: "'r rng_scheme \<Rightarrow> real \<times> 'r rng_scheme" where
  "random_float g = (shd (uniforms g), g\<lparr>uniforms := stl (uniforms g)\<rparr>)"

text \<open>The generator keeps its contract: every value of \<^verbatim>\<open>random()\<close> lies in \<open>[0, 1)\<close>.\<close>

definition unit_draws :: "'r rng_scheme \<Rightarrow> bool" where
  "unit_draws g \<longleftrightarrow> sset (uniforms g) \<subseteq> {0 ..< 1}"

text \<open>
  \<^verbatim>\<open>random.choices([False, True], [1 - prob, prob])[0]\<close>. The library accumulates the
  weights to \<open>[1 - prob, (1 - prob) + prob]\<close>, takes \<open>total\<close> as the last one, and
  returns the element at \<^verbatim>\<open>bisect_right(cum_weights, random() * total, 0, 1)\<close>:
  index 0 (False) when \<open>random() * total < 1 - prob\<close>, index 1 (True) otherwise.
\<close>

definition choices_bool :: "real \<Rightarrow> 'r rng_scheme \<Rightarrow> bool \<times> 'r rng_scheme" where
  "choices_bool prob g =
     (let (r, g') = random_float g;
          total = (1 - prob) + prob
      in (\<not> (r * total < 1 - prob), g'))"

text \<open>\<^verbatim>\<open>random.lognormvariate(mu, sigma)\<close> is \<open>exp (normalvariate mu sigma)\<close>.\<close>

definition lognormvariate :: "real \<Rightarrow> real \<Rightarrow> 'r rng_scheme \<Rightarrow> real \<times> 'r rng_scheme" where
  "lognormvariate m s g =
     (exp (m + shd (normals g) * s), g\<lparr>normals := stl (normals g)\<rparr>)"

subsection \<open>Animal\<close>

text \<open>The class attribute \<^verbatim>\<open>parameter\<close>, one table per species.\<close>

record params =
  w_birth :: real
  sigma_birth :: real
  beta :: real
  eta :: real
  a_half :: real
  phi_age :: real
  w_half :: real
  phi_weight :: real
  mu :: real
  gamma :: real
  zeta :: real
  xi :: real
  omega :: real
  F :: real

record cparams = params +
  DeltaPhiMax :: real

definition Herbivores_parameter :: params where
  "Herbivores_parameter =
     \<lparr>w_birth = 8, sigma_birth = 3/2, beta = 9/10, eta = 5/100, a_half = 40,
      phi_age = 6/10, w_half = 10, phi_weight = 1/10, mu = 25/100, gamma = 2/10,
      zeta = 35/10, xi = 12/10, omega = 4/10, F = 10\<rparr>"

definition Carnivores_parameter :: cparams where
  "Carnivores_parameter =
     \<lparr>w_birth = 6, sigma_birth = 1, beta = 75/100, eta = 125/1000, a_half = 40,
      phi_age = 3/10, w_half = 4, phi_weight = 4/10, mu = 4/10, gamma = 8/10,
      zeta = 35/10, xi = 11/10, omega = 8/10, F = 50, DeltaPhiMax = 10\<rparr>"

text \<open>
  An animal object. \<^verbatim>\<open>__init__(self, age=0, weight=None)\<close>: the weight is a number or
  \<^verbatim>\<open>None\<close>. The field \<open>ident\<close> is the identity of the object.
\<close>

record animal =
  age :: int
  weight :: "real option"
  moved :: bool
  ident :: nat

definition Animal_init :: "int \<Rightarrow> real option \<Rightarrow> nat \<Rightarrow> animal" where
  "Animal_init a w i = \<lparr>age = a, weight = w, moved = False, ident = i\<rparr>"

definition fitness_formula :: "real \<Rightarrow> real \<Rightarrow> real \<Rightarrow> real \<Rightarrow> real" where
  "fitness_formula plus_minus x x_half phi_x =
     1 / (1 + exp (plus_minus * phi_x * (x - x_half)))"

definition fitness_calculation :: "int \<Rightarrow> real \<Rightarrow> 'a params_scheme \<Rightarrow> real" where
  "fitness_calculation a w P =
     fitness_formula 1 (real_of_int a) (a_half P) (phi_age P)
       * fitness_formula (- 1) w (w_half P) (phi_weight P)"

text \<open>The property \<^verbatim>\<open>fitness\<close>: \<^verbatim>\<open>None <= 0\<close> raises \<^verbatim>\<open>TypeError\<close>.\<close>

definition fitness :: "'a params_scheme \<Rightarrow> animal \<Rightarrow> py_error + real" where
  "fitness P a =
     (case weight a of
        None \<Rightarrow> Inl TypeError
      | Some w \<Rightarrow> if w \<le> 0 then Inr 0 else Inr (fitness_calculation (age a) w P))"

text \<open>
  \<^verbatim>\<open>procreate(self, N)\<close>. The two logarithms come first; a float division by zero
  raises. The three conditions are joined by \<^verbatim>\<open>&\<close>, so the coin is always flipped.
  The result is the newborn (if any), the mother as she is afterwards, and the generator.
\<close>

definition log_mu :: "'a params_scheme \<Rightarrow> real" where
  "log_mu P = ln ((w_birth P)\<^sup>2 / sqrt ((w_birth P)\<^sup>2 + (sigma_birth P)\<^sup>2))"

definition log_sigma :: "'a params_scheme \<Rightarrow> real" where
  "log_sigma P = sqrt (ln (1 + (sigma_birth P)\<^sup>2 / (w_birth P)\<^sup>2))"

definition procreate ::
  "'a params_scheme \<Rightarrow> animal \<Rightarrow> nat \<Rightarrow> runtime
     \<Rightarrow> py_error + (animal option \<times> animal \<times> runtime)" where
  "procreate P a N g =
     (if sqrt ((w_birth P)\<^sup>2 + (sigma_birth P)\<^sup>2) = 0 \<or> (w_birth P)\<^sup>2 = 0
      then Inl ZeroDivisionError
      else
        case fitness P a of
          Inl e \<Rightarrow> Inl e
        | Inr fit \<Rightarrow>
           (case weight a of
              None \<Rightarrow> Inl TypeError
            | Some w \<Rightarrow>
               let prob = min 1 (gamma P * fit * real N);
                   (coin, g1) = choices_bool prob g
               in if w \<ge> (w_birth P + sigma_birth P) * zeta P \<and> age a > 1 \<and> coin
                  then
                    let (baby_weight, g2) = lognormvariate (log_mu P) (log_sigma P) g1
                    in if w - xi P * baby_weight \<ge> 0
                       then Inr (Some (Animal_init 0 (Some baby_weight) (next_id g2)),
                                 a\<lparr>weight := Some (w - xi P * baby_weight)\<rparr>,
                                 g2\<lparr>next_id := next_id g2 + 1\<rparr>)
                       else Inr (None, a, g2)
                  else Inr (None, a, g1)))"

definition growth_per_year :: "animal \<Rightarrow> animal" where
  "growth_per_year a = a\<lparr>age := age a + 1\<rparr>"

definition weight_loss_per_year :: "'a params_scheme \<Rightarrow> animal \<Rightarrow> py_error + animal" where
  "weight_loss_per_year P a =
     (case weight a of
        None \<Rightarrow> Inl TypeError
      | Some w \<Rightarrow>
         let w' = w - w * eta P
         in Inr (a\<lparr>weight := Some (if w' < 0 then 0 else w')\<rparr>))"

text \<open>\<^verbatim>\<open>die(self)\<close>: \<^verbatim>\<open>None == 0\<close> is just false; the fitness then raises.\<close>

definition die ::
  "'a params_scheme \<Rightarrow> animal \<Rightarrow> 'r rng_scheme \<Rightarrow> py_error + (bool \<times> 'r rng_scheme)" where
  "die P a g =
     (if weight a = Some 0 then Inr (True, g)
      else case fitness P a of
             Inl e \<Rightarrow> Inl e
           | Inr fit \<Rightarrow> Inr (choices_bool (omega P * (1 - fit)) g))"

text \<open>\<^verbatim>\<open>Herbivores.eat(self)\<close>: the weight grows by \<open>beta * F\<close>.\<close>

definition Herbivores_eat :: "'a params_scheme \<Rightarrow> animal \<Rightarrow> py_error + animal" where
  "Herbivores_eat P a =
     (case weight a of
        None \<Rightarrow> Inl TypeError
      | Some w \<Rightarrow> Inr (a\<lparr>weight := Some (w + beta P * F P)\<rparr>))"

text \<open>
  \<^verbatim>\<open>Carnivores.hunt(self, animal_list)\<close>. The carnivore's fitness is read once, before
  the loop; each prey's fitness is read with the herbivores' table \<open>H\<close>.
\<close>

definition kill_prob :: "cparams \<Rightarrow> real \<Rightarrow> real \<Rightarrow> real" where
  "kill_prob P fit animal_fitness =
     (if fit \<le> animal_fitness then 0
      else if 0 < fit - animal_fitness \<and> fit - animal_fitness < DeltaPhiMax P
           then (fit - animal_fitness) / DeltaPhiMax P
      else 1)"

fun hunt_loop ::
  "cparams \<Rightarrow> 'a params_scheme \<Rightarrow> real \<Rightarrow> animal list \<Rightarrow> 'r rng_scheme
     \<Rightarrow> py_error + (animal list \<times> 'r rng_scheme)" where
  "hunt_loop P H fit [] g = Inr ([], g)"
| "hunt_loop P H fit (animal # rest) g =
     (case fitness H animal of
        Inl e \<Rightarrow> Inl e
      | Inr animal_fitness \<Rightarrow>
         let (coin, g1) = choices_bool (kill_prob P fit animal_fitness) g
         in case hunt_loop P H fit rest g1 of
              Inl e \<Rightarrow> Inl e
            | Inr (hunted, g2) \<Rightarrow> Inr (if coin then animal # hunted else hunted, g2))"

definition hunt ::
  "cparams \<Rightarrow> 'a params_scheme \<Rightarrow> animal \<Rightarrow> animal list \<Rightarrow> 'r rng_scheme
     \<Rightarrow> py_error + (animal list \<times> 'r rng_scheme)" where
  "hunt P H self animal_list g =
     (case fitness P self of
        Inl e \<Rightarrow> Inl e
      | Inr fit \<Rightarrow> hunt_loop P H fit animal_list g)"

text \<open>\<^verbatim>\<open>np.cumsum\<close>: the running sums of a list.\<close>

fun cumsum_from :: "real \<Rightarrow> real list \<Rightarrow> real list" where
  "cumsum_from acc [] = []"
| "cumsum_from acc (x # xs) = (acc + x) # cumsum_from (acc + x) xs"

definition cumsum :: "real list \<Rightarrow> real list" where
  "cumsum xs = cumsum_from 0 xs"

text \<open>
  \<^verbatim>\<open>np.searchsorted(a, v, side='left')\<close>: the library's binary search, which halves
  \<open>[min_idx, max_idx)\<close> and goes right exactly when the middle value is below the key.
\<close>

function binsearch_left :: "real list \<Rightarrow> real \<Rightarrow> nat \<Rightarrow> nat \<Rightarrow> nat" where
  "binsearch_left arr key min_idx max_idx =
     (if min_idx < max_idx
      then let mid_idx = min_idx + (max_idx - min_idx) div 2
           in if arr ! mid_idx < key
              then binsearch_left arr key (mid_idx + 1) max_idx
              else binsearch_left arr key min_idx mid_idx
      else min_idx)"
  by pat_completeness auto
termination
  by (relation "measure (\<lambda>(arr, key, min_idx, max_idx). max_idx - min_idx)") auto

definition searchsorted :: "real list \<Rightarrow> real \<Rightarrow> nat" where
  "searchsorted arr key = binsearch_left arr key 0 (length arr)"

text \<open>
  \<^verbatim>\<open>Carnivores.eat(self, animal_list)\<close>. \<^verbatim>\<open>np.cumsum\<close> of a list that holds
  \<^verbatim>\<open>None\<close> raises; \<^verbatim>\<open>cum_weight_list[i]\<close> raises beyond the end. The result is the
  list of eaten herbivores, the carnivore afterwards, and the generator.
\<close>

definition Carnivores_eat ::
  "cparams \<Rightarrow> 'a params_scheme \<Rightarrow> animal \<Rightarrow> animal list \<Rightarrow> 'r rng_scheme
     \<Rightarrow> py_error + (animal list \<times> animal \<times> 'r rng_scheme)" where
  "Carnivores_eat P H self animal_list g =
     (case hunt P H self animal_list g of
        Inl e \<Rightarrow> Inl e
      | Inr (hunt_list, g') \<Rightarrow>
         (case those (map weight hunt_list) of
            None \<Rightarrow> Inl TypeError
          | Some hunt_weight_list \<Rightarrow>
             (case weight self of
                None \<Rightarrow> Inl TypeError
              | Some w \<Rightarrow>
                 let cum_weight_list = cumsum hunt_weight_list;
                     n = length cum_weight_list
                 in if n < 2
                    then Inr (hunt_list,
                              self\<lparr>weight := Some (w + beta P * sum_list cum_weight_list)\<rparr>, g')
                    else if F P > cum_weight_list ! (n - 2)
                    then Inr (hunt_list,
                              self\<lparr>weight := Some (w + beta P * cum_weight_list ! (n - 1))\<rparr>, g')
                    else
                      let stop_eat_index = searchsorted cum_weight_list (F P)
                      in if stop_eat_index < n
                         then Inr (take (stop_eat_index + 1) hunt_list,
                                   self\<lparr>weight :=
                                     Some (w + beta P * cum_weight_list ! stop_eat_index)\<rparr>, g')
                         else Inl IndexError)))"

subsection \<open>Cell\<close>

text \<open>The class attribute \<^verbatim>\<open>ParamCell\<close>.\<close>

record param_cell =
  f_max_L :: real
  f_max_H :: real

definition ParamCell :: param_cell where
  "ParamCell = \<lparr>f_max_L = 800, f_max_H = 300\<rparr>"

record cell =
  fodder :: real
  geography :: char
  animal_list :: "animal list"
  Carnivores_list :: "animal list"

definition Cell_init :: "char \<Rightarrow> cell" where
  "Cell_init geo = \<lparr>fodder = 0, geography = geo, animal_list = [], Carnivores_list = []\<rparr>"

definition produce_fodder :: "param_cell \<Rightarrow> cell \<Rightarrow> cell" where
  "produce_fodder PC c =
     (if geography c = CHR ''W'' \<or> geography c = CHR ''D'' then c\<lparr>fodder := fodder c + 0\<rparr>
      else if geography c = CHR ''L'' then c\<lparr>fodder := fodder c + f_max_L PC\<rparr>
      else c\<lparr>fodder := fodder c + f_max_H PC\<rparr>)"

text \<open>
  The loop of \<^verbatim>\<open>herbivore_birth\<close> and \<^verbatim>\<open>carnivore_birth\<close>. The residents already visited
  (\<open>seen\<close>, as they are after their attempt) and those still to come make up the list that
  \<^verbatim>\<open>len\<close> is applied to in every round; the newborns are collected aside.
\<close>

fun birth_loop ::
  "'a params_scheme \<Rightarrow> animal list \<Rightarrow> animal list \<Rightarrow> animal list \<Rightarrow> runtime
     \<Rightarrow> py_error + (animal list \<times> animal list \<times> runtime)" where
  "birth_loop P seen [] baby_animal_list g = Inr (seen, baby_animal_list, g)"
| "birth_loop P seen (animal # rest) baby_animal_list g =
     (case procreate P animal (length (seen @ animal # rest)) g of
        Inl e \<Rightarrow> Inl e
      | Inr (baby, animal', g1) \<Rightarrow>
         birth_loop P (seen @ [animal']) rest
           (case baby of None \<Rightarrow> baby_animal_list | Some b \<Rightarrow> baby_animal_list @ [b]) g1)"

text \<open>Both return the list of newborns, the cell afterwards, and the run-time state.\<close>

definition herbivore_birth ::
  "'a params_scheme \<Rightarrow> cell \<Rightarrow> runtime \<Rightarrow> py_error + (animal list \<times> cell \<times> runtime)" where
  "herbivore_birth H c g =
     (case birth_loop H [] (animal_list c) [] g of
        Inl e \<Rightarrow> Inl e
      | Inr (residents, baby_animal_list, g') \<Rightarrow>
         Inr (baby_animal_list, c\<lparr>animal_list := residents @ baby_animal_list\<rparr>, g'))"

definition carnivore_birth ::
  "'a params_scheme \<Rightarrow> cell \<Rightarrow> runtime \<Rightarrow> py_error + (animal list \<times> cell \<times> runtime)" where
  "carnivore_birth P c g =
     (case birth_loop P [] (Carnivores_list c) [] g of
        Inl e \<Rightarrow> Inl e
      | Inr (residents, baby_animal_list, g') \<Rightarrow>
         Inr (baby_animal_list, c\<lparr>Carnivores_list := residents @ baby_animal_list\<rparr>, g'))"

text \<open>
  \<^verbatim>\<open>random.shuffle(x)\<close>: for \<open>i\<close> from \<open>len(x) - 1\<close> down to 1, swap \<open>x[i]\<close> with
  \<open>x[j]\<close>, \<open>j = _randbelow(i + 1)\<close>. \<^verbatim>\<open>_randbelow(n)\<close> returns some integer below \<open>n\<close>:
  here the next raw integer of the generator, reduced below \<open>n\<close>.
\<close>

definition randbelow :: "nat \<Rightarrow> 'r rng_scheme \<Rightarrow> nat \<times> 'r rng_scheme" where
  "randbelow n g = (shd (integers g) mod n, g\<lparr>integers := stl (integers g)\<rparr>)"

fun shuffle_from :: "nat \<Rightarrow> 'a list \<Rightarrow> 'r rng_scheme \<Rightarrow> 'a list \<times> 'r rng_scheme" where
  "shuffle_from 0 x g = (x, g)"
| "shuffle_from (Suc n) x g =
     (let i = Suc n;
          (j, g1) = randbelow (i + 1) g
      in shuffle_from n (x[i := x ! j, j := x ! i]) g1)"

definition shuffle :: "'a list \<Rightarrow> 'r rng_scheme \<Rightarrow> 'a list \<times> 'r rng_scheme" where
  "shuffle x g = shuffle_from (length x - 1) x g"

text \<open>
  The loop of \<^verbatim>\<open>feed_animals\<close> over the shuffled list: an animal eats when the fodder
  covers \<open>F\<close>; the first one that cannot eat ends the loop (\<^verbatim>\<open>break\<close>).
\<close>

fun feed_loop :: "'a params_scheme \<Rightarrow> animal list \<Rightarrow> real \<Rightarrow> py_error + (animal list \<times> real)" where
  "feed_loop H [] fod = Inr ([], fod)"
| "feed_loop H (animal # rest) fod =
     (if fod \<ge> F H
      then case Herbivores_eat H animal of
             Inl e \<Rightarrow> Inl e
           | Inr animal' \<Rightarrow>
              (case feed_loop H rest (fod - F H) of
                 Inl e \<Rightarrow> Inl e
               | Inr (rest', fod') \<Rightarrow> Inr (animal' # rest', fod'))
      else Inr (animal # rest, fod))"

definition feed_animals ::
  "'a params_scheme \<Rightarrow> cell \<Rightarrow> 'r rng_scheme \<Rightarrow> py_error + (cell \<times> 'r rng_scheme)" where
  "feed_animals H c g =
     (let (shuffled, g') = shuffle (animal_list c) g
      in case feed_loop H shuffled (fodder c) of
           Inl e \<Rightarrow> Inl e
         | Inr (fed, fod) \<Rightarrow> Inr (c\<lparr>animal_list := fed, fodder := fod\<rparr>, g'))"

text \<open>
  \<^verbatim>\<open>{animal: animal.weight for animal in xs}.items()\<close>: one entry for each object, in
  the order of first occurrence.
\<close>

fun dict_keys :: "animal list \<Rightarrow> animal list" where
  "dict_keys [] = []"
| "dict_keys (a # rest) = a # dict_keys (filter (\<lambda>b. ident b \<noteq> ident a) rest)"

text \<open>
  \<^verbatim>\<open>sorted(..., key=lambda x: x[1])\<close> and the same with \<^verbatim>\<open>reverse=True\<close>: a stable sort
  on the weights. Comparing \<^verbatim>\<open>None\<close> with a number raises, and with two or more entries
  every entry is compared.
\<close>

definition sorted_by_weight :: "bool \<Rightarrow> animal list \<Rightarrow> py_error + animal list" where
  "sorted_by_weight reverse xs =
     (case those (map weight xs) of
        None \<Rightarrow> if length xs < 2 then Inr xs else Inl TypeError
      | Some ws \<Rightarrow>
         Inr (sort_key (\<lambda>a. if reverse then - the (weight a) else the (weight a)) xs))"

text \<open>\<^verbatim>\<open>list.remove(x)\<close>: drops the first occurrence of the object, or raises.\<close>

fun list_remove :: "animal \<Rightarrow> animal list \<Rightarrow> py_error + animal list" where
  "list_remove x [] = Inl ValueError"
| "list_remove x (y # ys) =
     (if ident y = ident x then Inr ys
      else case list_remove x ys of Inl e \<Rightarrow> Inl e | Inr ys' \<Rightarrow> Inr (y # ys'))"

fun remove_each :: "animal list \<Rightarrow> animal list \<Rightarrow> py_error + animal list" where
  "remove_each [] ys = Inr ys"
| "remove_each (x # xs) ys =
     (case list_remove x ys of Inl e \<Rightarrow> Inl e | Inr ys' \<Rightarrow> remove_each xs ys')"

text \<open>
  The loop of \<^verbatim>\<open>feed_carnivores\<close>: before each carnivore eats, the herbivores are put in
  ascending order of weight; what it has eaten is removed from the cell.
\<close>

fun carnivore_loop ::
  "cparams \<Rightarrow> 'a params_scheme \<Rightarrow> animal list \<Rightarrow> animal list \<Rightarrow> animal list \<Rightarrow> 'r rng_scheme
     \<Rightarrow> py_error + (animal list \<times> animal list \<times> 'r rng_scheme)" where
  "carnivore_loop P H seen [] herbs g = Inr (seen, herbs, g)"
| "carnivore_loop P H seen (animal # rest) herbs g =
     (case sorted_by_weight False (dict_keys herbs) of
        Inl e \<Rightarrow> Inl e
      | Inr herbivore_hunted_order_list \<Rightarrow>
         (case Carnivores_eat P H animal herbivore_hunted_order_list g of
            Inl e \<Rightarrow> Inl e
          | Inr (eaten_herbivores, animal', g1) \<Rightarrow>
             (case remove_each eaten_herbivores herbivore_hunted_order_list of
                Inl e \<Rightarrow> Inl e
              | Inr herbs' \<Rightarrow> carnivore_loop P H (seen @ [animal']) rest herbs' g1)))"

definition feed_carnivores ::
  "cparams \<Rightarrow> 'a params_scheme \<Rightarrow> cell \<Rightarrow> 'r rng_scheme \<Rightarrow> py_error + (cell \<times> 'r rng_scheme)" where
  "feed_carnivores P H c g =
     (if length (Carnivores_list c) > 0
      then case sorted_by_weight True (dict_keys (Carnivores_list c)) of
             Inl e \<Rightarrow> Inl e
           | Inr carnivore_hunting_order_list \<Rightarrow>
              (case carnivore_loop P H [] carnivore_hunting_order_list (animal_list c) g of
                 Inl e \<Rightarrow> Inl e
               | Inr (carnivores, herbs, g') \<Rightarrow>
                  Inr (c\<lparr>Carnivores_list := carnivores, animal_list := herbs\<rparr>, g'))
      else Inr (c, g))"

text \<open>\<^verbatim>\<open>grow_and_loose_weight_herbivore\<close> and \<^verbatim>\<open>grow_and_loose_weight_carnivore\<close>.\<close>

fun grow_loop :: "'a params_scheme \<Rightarrow> animal list \<Rightarrow> py_error + animal list" where
  "grow_loop P [] = Inr []"
| "grow_loop P (animal # rest) =
     (case weight_loss_per_year P (growth_per_year animal) of
        Inl e \<Rightarrow> Inl e
      | Inr animal' \<Rightarrow>
         (case grow_loop P rest of Inl e \<Rightarrow> Inl e | Inr rest' \<Rightarrow> Inr (animal' # rest')))"

definition grow_and_loose_weight_herbivore :: "'a params_scheme \<Rightarrow> cell \<Rightarrow> py_error + cell" where
  "grow_and_loose_weight_herbivore H c =
     (case grow_loop H (animal_list c) of
        Inl e \<Rightarrow> Inl e
      | Inr xs \<Rightarrow> Inr (c\<lparr>animal_list := xs\<rparr>))"

definition grow_and_loose_weight_carnivore :: "'a params_scheme \<Rightarrow> cell \<Rightarrow> py_error + cell" where
  "grow_and_loose_weight_carnivore P c =
     (case grow_loop P (Carnivores_list c) of
        Inl e \<Rightarrow> Inl e
      | Inr xs \<Rightarrow> Inr (c\<lparr>Carnivores_list := xs\<rparr>))"

text \<open>\<^verbatim>\<open>herbivore_death\<close> and \<^verbatim>\<open>carnivore_death\<close>: first collect, then remove.\<close>

fun death_loop ::
  "'a params_scheme \<Rightarrow> animal list \<Rightarrow> 'r rng_scheme \<Rightarrow> py_error + (animal list \<times> 'r rng_scheme)" where
  "death_loop P [] g = Inr ([], g)"
| "death_loop P (animal # rest) g =
     (case die P animal g of
        Inl e \<Rightarrow> Inl e
      | Inr (dies, g1) \<Rightarrow>
         (case death_loop P rest g1 of
            Inl e \<Rightarrow> Inl e
          | Inr (died, g2) \<Rightarrow> Inr (if dies then animal # died else died, g2)))"

definition herbivore_death ::
  "'a params_scheme \<Rightarrow> cell \<Rightarrow> 'r rng_scheme \<Rightarrow> py_error + (animal list \<times> cell \<times> 'r rng_scheme)" where
  "herbivore_death H c g =
     (case death_loop H (animal_list c) g of
        Inl e \<Rightarrow> Inl e
      | Inr (died_animal_list, g') \<Rightarrow>
         (case remove_each died_animal_list (animal_list c) of
            Inl e \<Rightarrow> Inl e
          | Inr xs \<Rightarrow> Inr (died_animal_list, c\<lparr>animal_list := xs\<rparr>, g')))"

definition carnivore_death ::
  "'a params_scheme \<Rightarrow> cell \<Rightarrow> 'r rng_scheme \<Rightarrow> py_error + (animal list \<times> cell \<times> 'r rng_scheme)" where
  "carnivore_death P c g =
     (case death_loop P (Carnivores_list c) g of
        Inl e \<Rightarrow> Inl e
      | Inr (died_carnivores_list, g') \<Rightarrow>
         (case remove_each died_carnivores_list (Carnivores_list c) of
            Inl e \<Rightarrow> Inl e
          | Inr xs \<Rightarrow> Inr (died_carnivores_list, c\<lparr>Carnivores_list := xs\<rparr>, g')))"

subsection \<open>Parameter tables as dictionaries\<close>

text \<open>
  For the operations that change a parameter table, the table is the dictionary it is in
  the source, from key strings to values; the argument \<^verbatim>\<open>params\<close> is a dictionary too,
  given as the list of its items in insertion order. An operation that may raise after it
  has written returns both the exception, if any, and the table as it is then.
\<close>

type_synonym table = "string \<rightharpoonup> real"

definition Herbivores_parameter_dict :: table where
  "Herbivores_parameter_dict =
     [''w_birth'' \<mapsto> 8, ''sigma_birth'' \<mapsto> 3/2, ''beta'' \<mapsto> 9/10, ''eta'' \<mapsto> 5/100,
      ''a_half'' \<mapsto> 40, ''phi_age'' \<mapsto> 6/10, ''w_half'' \<mapsto> 10, ''phi_weight'' \<mapsto> 1/10,
      ''mu'' \<mapsto> 25/100, ''gamma'' \<mapsto> 2/10, ''zeta'' \<mapsto> 35/10, ''xi'' \<mapsto> 12/10,
      ''omega'' \<mapsto> 4/10, ''F'' \<mapsto> 10]"

text \<open>\<^verbatim>\<open>set_params(cls, params)\<close>: \<^verbatim>\<open>cls.parameter.update(params)\<close>, nothing else.\<close>

fun set_params :: "(string \<times> real) list \<Rightarrow> table \<Rightarrow> table" where
  "set_params [] t = t"
| "set_params ((key, v) # rest) t = set_params rest (t(key \<mapsto> v))"

text \<open>
  \<^verbatim>\<open>update_para(cls, params)\<close>: the first loop writes every known key and raises at the
  first unknown one; the second loop, after it, raises at the first negative value.
\<close>

fun update_para_keys :: "(string \<times> real) list \<Rightarrow> table \<Rightarrow> py_error option \<times> table" where
  "update_para_keys [] t = (None, t)"
| "update_para_keys ((key, v) # rest) t =
     (if key \<notin> dom t then (Some ValueError, t)
      else update_para_keys rest (t(key \<mapsto> v)))"

fun update_para_values :: "real list \<Rightarrow> py_error option" where
  "update_para_values [] = None"
| "update_para_values (v # rest) = (if v < 0 then Some ValueError else update_para_values rest)"

definition update_para :: "(string \<times> real) list \<Rightarrow> table \<Rightarrow> py_error option \<times> table" where
  "update_para params t =
     (case update_para_keys params t of
        (Some e, t') \<Rightarrow> (Some e, t')
      | (None, t') \<Rightarrow> (update_para_values (map snd params), t'))"

text \<open>
  \<^verbatim>\<open>Cell.update_cell_para(cls, landscape, params)\<close>: only the first value is compared
  with 0 (an empty dictionary has none); \<^verbatim>\<open>params['f_max']\<close> raises \<^verbatim>\<open>KeyError\<close> when the
  key is missing. Nothing is written before an exception.
\<close>

definition update_cell_para ::
  "string \<Rightarrow> (string \<times> real) list \<Rightarrow> param_cell \<Rightarrow> py_error option \<times> param_cell" where
  "update_cell_para landscape params PC =
     (case params of
        [] \<Rightarrow> (Some IndexError, PC)
      | (k0, v0) # _ \<Rightarrow>
         if v0 < 0 then (Some ValueError, PC)
         else
           (if landscape = ''L''
            then (case map_of params ''f_max'' of
                    None \<Rightarrow> (Some KeyError, PC)
                  | Some v \<Rightarrow> (None, PC\<lparr>f_max_L := v\<rparr>))
            else if landscape = ''H''
            then (case map_of params ''f_max'' of
                    None \<Rightarrow> (Some KeyError, PC)
                  | Some v \<Rightarrow> (None, PC\<lparr>f_max_H := v\<rparr>))
            else (None, PC)))"

text \<open>
  \<^verbatim>\<open>BioSim.set_animal_parameters\<close> and \<^verbatim>\<open>BioSim.set_landscape_parameters\<close> on the three
  class-level tables.
\<close>

record tables =
  herbivores :: table
  carnivores :: table
  landscape_params :: param_cell

definition set_animal_parameters ::
  "string \<Rightarrow> (string \<times> real) list \<Rightarrow> tables \<Rightarrow> py_error option \<times> tables" where
  "set_animal_parameters species_name params T =
     (if species_name = ''Herbivore'' \<or> species_name = ''Carnivore''
      then if species_name = ''Herbivore''
           then (case update_para params (herbivores T) of
                   (e, t') \<Rightarrow> (e, T\<lparr>herbivores := t'\<rparr>))
           else (case update_para params (carnivores T) of
                   (e, t') \<Rightarrow> (e, T\<lparr>carnivores := t'\<rparr>))
      else (Some TypeError, T))"

definition set_landscape_parameters ::
  "string \<Rightarrow> (string \<times> real) list \<Rightarrow> tables \<Rightarrow> py_error option \<times> tables" where
  "set_landscape_parameters landscape params T =
     (if landscape = ''L'' \<or> landscape = ''H''
      then (case update_cell_para landscape params (landscape_params T) of
              (e, PC') \<Rightarrow> (e, T\<lparr>landscape_params := PC'\<rparr>))
      else (Some TypeError, T))"

subsection \<open>Map\<close>

text \<open>\<^verbatim>\<open>str.split('\n')\<close>.\<close>

fun split_on :: "char \<Rightarrow> string \<Rightarrow> string list" where
  "split_on sep [] = [[]]"
| "split_on sep (x # xs) =
     (if x = sep then [] # split_on sep xs
      else (x # hd (split_on sep xs)) # tl (split_on sep xs))"

text \<open>
  The map object: the string it was built from and the array of cells, indexed by row and
  column. The model covers rectangular maps over the four landscape letters, which is what
  \<^verbatim>\<open>BioSim.__init__\<close> lets through.
\<close>

record island =
  island_map :: string
  cells_array :: "nat \<times> nat \<Rightarrow> cell"

definition island_map_array :: "island \<Rightarrow> string list" where
  "island_map_array m = split_on (CHR 0x0A) (island_map m)"

definition shape :: "island \<Rightarrow> nat \<times> nat" where
  "shape m = (length (island_map_array m), length (hd (island_map_array m)))"

definition letter :: "island \<Rightarrow> nat \<times> nat \<Rightarrow> char" where
  "letter m p = island_map_array m ! fst p ! snd p"

text \<open>The positions of the array in the order of \<^verbatim>\<open>np.ndenumerate\<close>, row by row.\<close>

definition positions :: "island \<Rightarrow> (nat \<times> nat) list" where
  "positions m =
     concat (map (\<lambda>i. map (\<lambda>j. (i, j)) [0 ..< snd (shape m)]) [0 ..< fst (shape m)])"

text \<open>
  \<^verbatim>\<open>cells_array[mask]\<close> for a mask computed from \<^verbatim>\<open>island_map_array\<close>: the positions
  whose letter satisfies the mask, in the same order.
\<close>

definition selected :: "(char \<Rightarrow> bool) \<Rightarrow> island \<Rightarrow> (nat \<times> nat) list" where
  "selected keep m = filter (\<lambda>p. keep (letter m p)) (positions m)"

definition init_cells_array :: "string \<Rightarrow> nat \<times> nat \<Rightarrow> cell" where
  "init_cells_array s =
     (\<lambda>(i, j). let rows = split_on (CHR 0x0A) s
               in if i < length rows \<and> j < length (rows ! i)
                  then Cell_init (rows ! i ! j) else Cell_init (CHR ''W''))"

definition Map_init :: "string \<Rightarrow> island" where
  "Map_init s = \<lparr>island_map = s, cells_array = init_cells_array s\<rparr>"

text \<open>A \<^verbatim>\<open>for cell in cells_array[mask]\<close> loop whose body may draw random values and raise.\<close>

fun for_cells ::
  "(cell \<Rightarrow> 's \<Rightarrow> py_error + (cell \<times> 's)) \<Rightarrow> (nat \<times> nat) list \<Rightarrow> (nat \<times> nat \<Rightarrow> cell) \<Rightarrow> 's
     \<Rightarrow> py_error + ((nat \<times> nat \<Rightarrow> cell) \<times> 's)" where
  "for_cells body [] cells g = Inr (cells, g)"
| "for_cells body (p # ps) cells g =
     (case body (cells p) g of
        Inl e \<Rightarrow> Inl e
      | Inr (c', g') \<Rightarrow> for_cells body ps (cells(p := c')) g')"

text \<open>The same for a body that neither draws nor raises.\<close>

definition update_cells ::
  "(cell \<Rightarrow> cell) \<Rightarrow> (nat \<times> nat) list \<Rightarrow> (nat \<times> nat \<Rightarrow> cell) \<Rightarrow> (nat \<times> nat \<Rightarrow> cell)" where
  "update_cells body ps cells = foldl (\<lambda>cs p. cs(p := body (cs p))) cells ps"

definition not_water :: "char \<Rightarrow> bool" where
  "not_water x \<longleftrightarrow> x \<noteq> CHR ''W''"

definition produce :: "param_cell \<Rightarrow> island \<Rightarrow> island" where
  "produce PC m =
     m\<lparr>cells_array :=
         update_cells (produce_fodder PC)
           (selected (\<lambda>x. x = CHR ''L'' \<or> x = CHR ''H'') m) (cells_array m)\<rparr>"

definition cell_births ::
  "'a params_scheme \<Rightarrow> cparams \<Rightarrow> cell \<Rightarrow> runtime \<Rightarrow> py_error + (cell \<times> runtime)" where
  "cell_births H P c g =
     (case herbivore_birth H c g of
        Inl e \<Rightarrow> Inl e
      | Inr (babies, c1, g1) \<Rightarrow>
         (case carnivore_birth P c1 g1 of
            Inl e \<Rightarrow> Inl e
          | Inr (babies', c2, g2) \<Rightarrow> Inr (c2, g2)))"

definition givebirth ::
  "'a params_scheme \<Rightarrow> cparams \<Rightarrow> island \<Rightarrow> runtime \<Rightarrow> py_error + (island \<times> runtime)" where
  "givebirth H P m g =
     (case for_cells (cell_births H P) (selected not_water m) (cells_array m) g of
        Inl e \<Rightarrow> Inl e
      | Inr (cells, g') \<Rightarrow> Inr (m\<lparr>cells_array := cells\<rparr>, g'))"

definition cell_feed ::
  "'a params_scheme \<Rightarrow> cparams \<Rightarrow> cell \<Rightarrow> 'r rng_scheme \<Rightarrow> py_error + (cell \<times> 'r rng_scheme)" where
  "cell_feed H P c g =
     (case feed_animals H c g of
        Inl e \<Rightarrow> Inl e
      | Inr (c1, g1) \<Rightarrow> feed_carnivores P H c1 g1)"

definition feed ::
  "'a params_scheme \<Rightarrow> cparams \<Rightarrow> island \<Rightarrow> 'r rng_scheme \<Rightarrow> py_error + (island \<times> 'r rng_scheme)" where
  "feed H P m g =
     (case for_cells (cell_feed H P) (selected not_water m) (cells_array m) g of
        Inl e \<Rightarrow> Inl e
      | Inr (cells, g') \<Rightarrow> Inr (m\<lparr>cells_array := cells\<rparr>, g'))"

definition cell_move_permit :: "cell \<Rightarrow> cell" where
  "cell_move_permit c =
     c\<lparr>animal_list := map (\<lambda>animal. animal\<lparr>moved := False\<rparr>) (animal_list c),
       Carnivores_list := map (\<lambda>animal. animal\<lparr>moved := False\<rparr>) (Carnivores_list c)\<rparr>"

definition move_permit :: "island \<Rightarrow> island" where
  "move_permit m =
     m\<lparr>cells_array := update_cells cell_move_permit (selected not_water m) (cells_array m)\<rparr>"

text \<open>\<^verbatim>\<open>get_neighbors(self, i, j)\<close>: up, down, left, right, each if inside and not Water.\<close>

definition get_neighbors :: "island \<Rightarrow> nat \<Rightarrow> nat \<Rightarrow> (nat \<times> nat) list" where
  "get_neighbors m i j =
     (let map_shape = (fst (shape m) - 1, snd (shape m) - 1);
          cells = cells_array m
      in (if i > 0 \<and> geography (cells (i - 1, j)) \<noteq> CHR ''W'' then [(i - 1, j)] else [])
       @ (if i < fst map_shape \<and> geography (cells (i + 1, j)) \<noteq> CHR ''W''
          then [(i + 1, j)] else [])
       @ (if j > 0 \<and> geography (cells (i, j - 1)) \<noteq> CHR ''W'' then [(i, j - 1)] else [])
       @ (if j < snd map_shape \<and> geography (cells (i, j + 1)) \<noteq> CHR ''W''
          then [(i, j + 1)] else []))"

text \<open>
  \<^verbatim>\<open>random.choices(population)[0]\<close> without weights:
  \<^verbatim>\<open>population[floor(random() * len(population))]\<close>.
\<close>

definition choices_uniform :: "'a list \<Rightarrow> 'r rng_scheme \<Rightarrow> py_error + ('a \<times> 'r rng_scheme)" where
  "choices_uniform population g =
     (let (r, g') = random_float g;
          n = int (length population);
          idx = \<lfloor>r * real_of_int n\<rfloor>
      in if 0 \<le> idx \<and> idx < n then Inr (population ! nat idx, g')
         else if - n \<le> idx \<and> idx < 0 then Inr (population ! nat (n + idx), g')
         else Inl IndexError)"

text \<open>
  \<^verbatim>\<open>Animal.migrate(self, neighbors)\<close>: two coins on \<open>fitness * mu\<close>, then a uniform choice
  among the neighbours, padded to four with \<^verbatim>\<open>False\<close>. The result is the destination, if
  any.
\<close>

definition Animal_migrate ::
  "'a params_scheme \<Rightarrow> animal \<Rightarrow> (nat \<times> nat) list \<Rightarrow> 'r rng_scheme
     \<Rightarrow> py_error + ((nat \<times> nat) option \<times> 'r rng_scheme)" where
  "Animal_migrate P a neighbors g =
     (case fitness P a of
        Inl e \<Rightarrow> Inl e
      | Inr self_fitness \<Rightarrow>
         let prob = self_fitness * mu P;
             (coin1, g1) = choices_bool prob g
         in if coin1
            then let (coin2, g2) = choices_bool prob g1
                 in if coin2
                    then if length neighbors \<in> {1, 2, 3, 4}
                         then choices_uniform
                                (map Some neighbors @ replicate (4 - length neighbors) None) g2
                         else Inr (None, g2)
                    else Inr (None, g2)
            else Inr (None, g1))"

text \<open>
  The two loops of \<^verbatim>\<open>Cell.animal_migration(self, neighbors)\<close>, on the array of cells:
  a mover is flagged and appended to the matching list of its destination (\<open>arrive\<close>);
  the others are collected in \<open>stay\<close>.
\<close>

fun migration_loop ::
  "'a params_scheme \<Rightarrow> (animal \<Rightarrow> cell \<Rightarrow> cell) \<Rightarrow> (nat \<times> nat) list \<Rightarrow> animal list \<Rightarrow> animal list
     \<Rightarrow> (nat \<times> nat \<Rightarrow> cell) \<Rightarrow> 'r rng_scheme
     \<Rightarrow> py_error + (animal list \<times> (nat \<times> nat \<Rightarrow> cell) \<times> 'r rng_scheme)" where
  "migration_loop P arrive neighbors [] stay cells g = Inr (stay, cells, g)"
| "migration_loop P arrive neighbors (animal # rest) stay cells g =
     (if moved animal
      then migration_loop P arrive neighbors rest (stay @ [animal]) cells g
      else case Animal_migrate P animal neighbors g of
             Inl e \<Rightarrow> Inl e
           | Inr (None, g1) \<Rightarrow> migration_loop P arrive neighbors rest (stay @ [animal]) cells g1
           | Inr (Some destination, g1) \<Rightarrow>
               migration_loop P arrive neighbors rest stay
                 (cells(destination := arrive (animal\<lparr>moved := True\<rparr>) (cells destination))) g1)"

definition arrive_herbivore :: "animal \<Rightarrow> cell \<Rightarrow> cell" where
  "arrive_herbivore a c = c\<lparr>animal_list := animal_list c @ [a]\<rparr>"

definition arrive_carnivore :: "animal \<Rightarrow> cell \<Rightarrow> cell" where
  "arrive_carnivore a c = c\<lparr>Carnivores_list := Carnivores_list c @ [a]\<rparr>"

definition animal_migration ::
  "'a params_scheme \<Rightarrow> cparams \<Rightarrow> (nat \<times> nat \<Rightarrow> cell) \<Rightarrow> nat \<times> nat \<Rightarrow> (nat \<times> nat) list
     \<Rightarrow> 'r rng_scheme \<Rightarrow> py_error + ((nat \<times> nat \<Rightarrow> cell) \<times> 'r rng_scheme)" where
  "animal_migration H P cells p neighbors g =
     (case migration_loop H arrive_herbivore neighbors (animal_list (cells p)) [] cells g of
        Inl e \<Rightarrow> Inl e
      | Inr (stay_animal_list, cells1, g1) \<Rightarrow>
         let cells2 = cells1(p := (cells1 p)\<lparr>animal_list := stay_animal_list\<rparr>)
         in case migration_loop P arrive_carnivore neighbors (Carnivores_list (cells2 p)) []
                   cells2 g1 of
              Inl e \<Rightarrow> Inl e
            | Inr (stay_carnivores_list, cells3, g2) \<Rightarrow>
               Inr (cells3(p := (cells3 p)\<lparr>Carnivores_list := stay_carnivores_list\<rparr>), g2))"

text \<open>\<^verbatim>\<open>Map.migrate\<close>: every position in turn; Water cells are skipped.\<close>

fun migrate_loop ::
  "'a params_scheme \<Rightarrow> cparams \<Rightarrow> island \<Rightarrow> (nat \<times> nat) list \<Rightarrow> (nat \<times> nat \<Rightarrow> cell)
     \<Rightarrow> 'r rng_scheme \<Rightarrow> py_error + ((nat \<times> nat \<Rightarrow> cell) \<times> 'r rng_scheme)" where
  "migrate_loop H P m [] cells g = Inr (cells, g)"
| "migrate_loop H P m (p # ps) cells g =
     (if geography (cells p) \<noteq> CHR ''W''
      then case animal_migration H P cells p
                  (get_neighbors (m\<lparr>cells_array := cells\<rparr>) (fst p) (snd p)) g of
             Inl e \<Rightarrow> Inl e
           | Inr (cells', g') \<Rightarrow> migrate_loop H P m ps cells' g'
      else migrate_loop H P m ps cells g)"

definition migrate ::
  "'a params_scheme \<Rightarrow> cparams \<Rightarrow> island \<Rightarrow> 'r rng_scheme \<Rightarrow> py_error + (island \<times> 'r rng_scheme)" where
  "migrate H P m g =
     (case migrate_loop H P m (positions m) (cells_array m) g of
        Inl e \<Rightarrow> Inl e
      | Inr (cells, g') \<Rightarrow> Inr (m\<lparr>cells_array := cells\<rparr>, g'))"

definition cell_grow_loss ::
  "'a params_scheme \<Rightarrow> cparams \<Rightarrow> cell \<Rightarrow> 's \<Rightarrow> py_error + (cell \<times> 's)" where
  "cell_grow_loss H P c g =
     (case grow_and_loose_weight_herbivore H c of
        Inl e \<Rightarrow> Inl e
      | Inr c1 \<Rightarrow>
         (case grow_and_loose_weight_carnivore P c1 of
            Inl e \<Rightarrow> Inl e
          | Inr c2 \<Rightarrow> Inr (c2, g)))"

definition grow_loss ::
  "'a params_scheme \<Rightarrow> cparams \<Rightarrow> island \<Rightarrow> 's \<Rightarrow> py_error + (island \<times> 's)" where
  "grow_loss H P m g =
     (case for_cells (cell_grow_loss H P) (selected not_water m) (cells_array m) g of
        Inl e \<Rightarrow> Inl e
      | Inr (cells, g') \<Rightarrow> Inr (m\<lparr>cells_array := cells\<rparr>, g'))"

definition reset_fodder :: "island \<Rightarrow> island" where
  "reset_fodder m =
     m\<lparr>cells_array :=
         update_cells (\<lambda>c. c\<lparr>fodder := 0\<rparr>) (selected not_water m) (cells_array m)\<rparr>"

definition cell_die ::
  "'a params_scheme \<Rightarrow> cparams \<Rightarrow> cell \<Rightarrow> 'r rng_scheme \<Rightarrow> py_error + (cell \<times> 'r rng_scheme)" where
  "cell_die H P c g =
     (case herbivore_death H c g of
        Inl e \<Rightarrow> Inl e
      | Inr (died, c1, g1) \<Rightarrow>
         (case carnivore_death P c1 g1 of
            Inl e \<Rightarrow> Inl e
          | Inr (died', c2, g2) \<Rightarrow> Inr (c2, g2)))"

definition Map_die ::
  "'a params_scheme \<Rightarrow> cparams \<Rightarrow> island \<Rightarrow> 'r rng_scheme \<Rightarrow> py_error + (island \<times> 'r rng_scheme)" where
  "Map_die H P m g =
     (case for_cells (cell_die H P) (selected not_water m) (cells_array m) g of
        Inl e \<Rightarrow> Inl e
      | Inr (cells, g') \<Rightarrow> Inr (m\<lparr>cells_array := cells\<rparr>, g'))"

text \<open>
  \<^verbatim>\<open>Map.annul_cycle\<close>. Of the values it returns, the model keeps the two lists of all
  herbivores and all carnivores in the cells that are not Water; the others (the two
  distribution arrays and the lists of fitness, age and weight) are read off the same state.
\<close>

definition percell_year :: "(cell \<Rightarrow> animal list) \<Rightarrow> island \<Rightarrow> animal list" where
  "percell_year residents m =
     concat (map (\<lambda>p. residents (cells_array m p)) (selected not_water m))"

definition annul_cycle ::
  "'a params_scheme \<Rightarrow> cparams \<Rightarrow> param_cell \<Rightarrow> island \<Rightarrow> runtime
     \<Rightarrow> py_error + ((animal list \<times> animal list) \<times> island \<times> runtime)" where
  "annul_cycle H P PC m g =
     (let m1 = produce PC m
      in case givebirth H P m1 g of
           Inl e \<Rightarrow> Inl e
         | Inr (m2, g2) \<Rightarrow>
            (case feed H P m2 g2 of
               Inl e \<Rightarrow> Inl e
             | Inr (m3, g3) \<Rightarrow>
                let m4 = move_permit m3
                in case migrate H P m4 g3 of
                     Inl e \<Rightarrow> Inl e
                   | Inr (m5, g5) \<Rightarrow>
                      (case grow_loss H P m5 g5 of
                         Inl e \<Rightarrow> Inl e
                       | Inr (m6, g6) \<Rightarrow>
                          let m7 = reset_fodder m6
                          in case Map_die H P m7 g6 of
                               Inl e \<Rightarrow> Inl e
                             | Inr (m8, g8) \<Rightarrow>
                                Inr ((percell_year animal_list m8,
                                      percell_year Carnivores_list m8), m8, g8))))"

subsection \<open>Map.add\_fauna and the simulation object\<close>

text \<open>
  A population is a list of records \<^verbatim>\<open>{'loc': (row, col), 'pop': [...]}\<close>, each entry of
  \<^verbatim>\<open>'pop'\<close> a record \<^verbatim>\<open>{'species': ..., 'age': ..., 'weight': ...}\<close>.
\<close>

record fauna_dict =
  species :: string
  fauna_age :: int
  fauna_weight :: "real option"

record pop_dict =
  loc :: "int \<times> int"
  pop :: "fauna_dict list"

text \<open>An index into an axis of length \<open>n\<close>: negative indices count from the end.\<close>

definition np_index :: "nat \<Rightarrow> int \<Rightarrow> nat option" where
  "np_index n i =
     (if 0 \<le> i \<and> i < int n then Some (nat i)
      else if - int n \<le> i \<and> i < 0 then Some (nat (int n + i))
      else None)"

text \<open>
  The inner loop of \<^verbatim>\<open>add_fauna\<close> over \<^verbatim>\<open>dict['pop']\<close>: the two counters, the two
  lists, and the run-time state, which hands out the identities.
\<close>

fun build_fauna ::
  "fauna_dict list \<Rightarrow> nat \<times> nat \<times> animal list \<times> animal list \<times> runtime
     \<Rightarrow> nat \<times> nat \<times> animal list \<times> animal list \<times> runtime" where
  "build_fauna [] acc = acc"
| "build_fauna (fd # rest) (animal_num, Carnivores_num, herbs, carns, g) =
     (let (animal_num1, herbs1, g1) =
            (if species fd = ''Herbivore''
             then (animal_num + 1,
                   herbs @ [Animal_init (fauna_age fd) (fauna_weight fd) (next_id g)],
                   g\<lparr>next_id := next_id g + 1\<rparr>)
             else (animal_num, herbs, g));
          (Carnivores_num1, carns1, g2) =
            (if species fd = ''Carnivore''
             then (Carnivores_num + 1,
                   carns @ [Animal_init (fauna_age fd) (fauna_weight fd) (next_id g1)],
                   g1\<lparr>next_id := next_id g1 + 1\<rparr>)
             else (Carnivores_num, carns, g1))
      in build_fauna rest (animal_num1, Carnivores_num1, herbs1, carns1, g2))"

text \<open>
  The outer loop over the records: the counters and lists start afresh for every record,
  and the counters of the last record are what is left when the loop ends.
\<close>

fun add_fauna_loop ::
  "pop_dict list \<Rightarrow> nat \<times> nat \<Rightarrow> island \<Rightarrow> runtime
     \<Rightarrow> py_error + ((nat \<times> nat) \<times> island \<times> runtime)" where
  "add_fauna_loop [] counts m g = Inr (counts, m, g)"
| "add_fauna_loop (d # rest) counts m g =
     (let (animal_num, Carnivores_num, herbs, carns, g') = build_fauna (pop d) (0, 0, [], [], g)
      in case (np_index (fst (shape m)) (fst (loc d) - 1),
               np_index (snd (shape m)) (snd (loc d) - 1)) of
           (Some i, Some j) \<Rightarrow>
             let c = cells_array m (i, j);
                 c1 = c\<lparr>animal_list := animal_list c @ herbs\<rparr>;
                 c2 = c1\<lparr>Carnivores_list := Carnivores_list c1 @ carns\<rparr>
             in add_fauna_loop rest (animal_num, Carnivores_num)
                  (m\<lparr>cells_array := (cells_array m)((i, j) := c2)\<rparr>) g'
         | _ \<Rightarrow> Inl IndexError)"

definition add_fauna ::
  "pop_dict list \<Rightarrow> island \<Rightarrow> runtime \<Rightarrow> py_error + ((nat \<times> nat) \<times> island \<times> runtime)" where
  "add_fauna population m g =
     (if length population = 0 then Inr ((0, 0), m, g)
      else add_fauna_loop population (0, 0) m g)"

text \<open>The fields of \<^verbatim>\<open>BioSim\<close> that the population queries read.\<close>

record biosim =
  year :: nat
  map_instance :: island
  herbivores_num :: nat
  carnivores_num :: nat

definition add_population ::
  "pop_dict list \<Rightarrow> biosim \<Rightarrow> runtime \<Rightarrow> py_error + ((nat \<times> nat) \<times> biosim \<times> runtime)" where
  "add_population population sim g =
     (case add_fauna population (map_instance sim) g of
        Inl e \<Rightarrow> Inl e
      | Inr ((animal_num, carnivores_num'), m', g') \<Rightarrow>
         let sim1 = sim\<lparr>map_instance := m'\<rparr>;
             sim2 = (if year sim1 \<noteq> 0
                     then sim1\<lparr>herbivores_num := herbivores_num sim1 + animal_num,
                               carnivores_num := carnivores_num sim1 + carnivores_num'\<rparr>
                     else sim1)
         in Inr ((animal_num, carnivores_num'), sim2, g'))"

text \<open>
  \<^verbatim>\<open>BioSim.__init__\<close>: the checks of the map, then year 0, the map object, and the initial
  population, whose counts become the two totals. \<open>g\<close> is the run-time state after
  \<^verbatim>\<open>random.seed(seed)\<close>.
\<close>

definition map_is_legal :: "string \<Rightarrow> py_error option" where
  "map_is_legal s =
     (let rows = split_on (CHR 0x0A) s
      in if card (set (map length rows)) > 1 then Some ValueError
         else if length (hd rows) = 0 then Some IndexError
         else if (\<exists>x\<in>set (hd rows). x \<noteq> CHR ''W'') \<or> (\<exists>x\<in>set (last rows). x \<noteq> CHR ''W'')
                 \<or> (\<exists>row\<in>set rows. hd row \<noteq> CHR ''W'') \<or> (\<exists>row\<in>set rows. last row \<noteq> CHR ''W'')
         then Some ValueError
         else if \<exists>x\<in>set s. x \<noteq> CHR 0x0A \<and> x \<notin> {CHR ''W'', CHR ''L'', CHR ''H'', CHR ''D''}
         then Some ValueError
         else None)"

definition BioSim_init :: "string \<Rightarrow> pop_dict list \<Rightarrow> runtime \<Rightarrow> py_error + (biosim \<times> runtime)" where
  "BioSim_init s ini_pop g =
     (case map_is_legal s of
        Some e \<Rightarrow> Inl e
      | None \<Rightarrow>
         let sim = \<lparr>year = 0, map_instance = Map_init s, herbivores_num = 0, carnivores_num = 0\<rparr>
         in case add_population ini_pop sim g of
              Inl e \<Rightarrow> Inl e
            | Inr ((h, c), sim', g') \<Rightarrow>
               Inr (sim'\<lparr>herbivores_num := h, carnivores_num := c\<rparr>, g'))"

definition num_animals :: "biosim \<Rightarrow> nat" where
  "num_animals sim = herbivores_num sim + carnivores_num sim"

text \<open>\<^verbatim>\<open>BioSim.simulate\<close> for one year: the totals are recounted from the cycle's lists.\<close>

definition simulate_year ::
  "'a params_scheme \<Rightarrow> cparams \<Rightarrow> param_cell \<Rightarrow> biosim \<Rightarrow> runtime \<Rightarrow> py_error + (biosim \<times> runtime)" where
  "simulate_year H P PC sim g =
     (case annul_cycle H P PC (map_instance sim) g of
        Inl e \<Rightarrow> Inl e
      | Inr ((animal_percell_year, carnivore_percell_year), m', g') \<Rightarrow>
         Inr (sim\<lparr>map_instance := m',
                  herbivores_num := length animal_percell_year,
                  carnivores_num := length carnivore_percell_year,
                  year := year sim + 1\<rparr>, g'))"

subsection \<open>The phases as the specification words them\<close>

text \<open>
  The birth phase of the specification: every resident attempts once, in order, with the
  same count \<open>N\<close> taken before the phase; the newborns are set aside and attempt nothing.
  The result is the residents after their attempts, the newborns, and the run-time state.
\<close>

fun spec_birth_phase ::
  "'a params_scheme \<Rightarrow> nat \<Rightarrow> animal list \<Rightarrow> runtime
     \<Rightarrow> py_error + (animal list \<times> animal list \<times> runtime)" where
  "spec_birth_phase P N [] g = Inr ([], [], g)"
| "spec_birth_phase P N (a # rest) g =
     (case procreate P a N g of
        Inl e \<Rightarrow> Inl e
      | Inr (baby, a', g1) \<Rightarrow>
         (case spec_birth_phase P N rest g1 of
            Inl e \<Rightarrow> Inl e
          | Inr (residents, newborns, g2) \<Rightarrow>
             Inr (a' # residents,
                  (case baby of None \<Rightarrow> newborns | Some b \<Rightarrow> b # newborns), g2)))"












subsection \<open>Notions for stating the properties\<close>

text \<open>An animal apart from its \<open>moved\<close> flag.\<close>

definition unflag :: "animal \<Rightarrow> animal" where
  "unflag a = a\<lparr>moved := False\<rparr>"

text \<open>All residents of one kind on the island, cell by cell.\<close>

definition all_residents :: "(cell \<Rightarrow> animal list) \<Rightarrow> island \<Rightarrow> animal list" where
  "all_residents kind m = concat (map (\<lambda>p. kind (cells_array m p)) (positions m))"

text \<open>
  An animal \<open>a'\<close> found at position \<open>p'\<close> came from the island \<open>m\<close>: it is a resident of
  \<open>m\<close> that is still in its cell, flag and all, or it was unflagged in \<open>m\<close>, is flagged
  now, and \<open>p'\<close> is one of the cells that \<open>get_neighbors\<close> gives for its old cell.
\<close>

definition came_from :: "(cell \<Rightarrow> animal list) \<Rightarrow> island \<Rightarrow> nat \<times> nat \<Rightarrow> animal \<Rightarrow> bool" where
  "came_from kind m p' a' \<longleftrightarrow>
     (\<exists>p\<in>set (positions m). \<exists>a\<in>set (kind (cells_array m p)).
        unflag a' = unflag a
      \<and> (p' = p \<and> a' = a
         \<or> p' \<in> set (get_neighbors m (fst p) (snd p)) \<and> \<not> moved a \<and> moved a'))"

definition stayed_or_moved_once :: "(cell \<Rightarrow> animal list) \<Rightarrow> island \<Rightarrow> island \<Rightarrow> bool" where
  "stayed_or_moved_once kind m m' \<longleftrightarrow>
     (\<forall>p'\<in>set (positions m'). \<forall>a'\<in>set (kind (cells_array m' p')). came_from kind m p' a')"

text \<open>The residents of one kind in the cells at a set of positions, flags apart.\<close>

definition tot ::
  "(cell \<Rightarrow> animal list) \<Rightarrow> (nat \<times> nat) set \<Rightarrow> (nat \<times> nat \<Rightarrow> cell) \<Rightarrow> animal multiset" where
  "tot kind A cells = (\<Sum>q\<in>A. mset (map unflag (kind (cells q))))"




section \<open>Properties\<close>

subsection \<open>Auxiliary facts: coins, bounds on the logistic terms\<close>

lemma exp_neg_bound: "0 \<le> x \<Longrightarrow> exp (- x) \<le> 1 / (1 + x)" for x :: real
proof -
  assume h: "0 \<le> x"
  have "1 + x \<le> exp x" by (rule exp_ge_add_one_self)
  then have "1 / exp x \<le> 1 / (1 + x)" using h by (intro divide_left_mono) auto
  then show ?thesis by (simp add: exp_minus inverse_eq_divide)
qed

lemma logistic_lower: "0 \<le> x \<Longrightarrow> (1 + x) / (2 + x) \<le> 1 / (1 + exp (- x))" for x :: real
proof -
  assume h: "0 \<le> x"
  have e: "exp (- x) \<le> 1 / (1 + x)" using h by (rule exp_neg_bound)
  have p: "0 < 1 + exp (- x)" by (simp add: add_pos_pos)
  have "(1 + x) * (1 + exp (- x)) \<le> (1 + x) * (1 + 1 / (1 + x))"
    using e h by (intro mult_left_mono) auto
  also have "\<dots> = 2 + x" using h by (simp add: field_simps)
  finally have "(1 + x) * (1 + exp (- x)) \<le> 2 + x" .
  then have "(1 + x) \<le> (2 + x) / (1 + exp (- x))"
    using p by (simp add: pos_le_divide_eq)
  moreover have "0 < 2 + x" using h by simp
  ultimately show ?thesis by (simp add: pos_divide_le_eq mult.commute)
qed

lemma logistic_upper: "0 \<le> x \<Longrightarrow> 1 / (1 + exp x) \<le> 1 / (2 + x)" for x :: real
proof -
  assume h: "0 \<le> x"
  have "1 + x \<le> exp x" by (rule exp_ge_add_one_self)
  then have "2 + x \<le> 1 + exp x" by simp
  then show ?thesis using h by (intro divide_left_mono) (auto simp: add_pos_pos)
qed

lemma logistic_lt_one: "1 / (1 + exp x) < 1" "0 < 1 / (1 + exp x)" for x :: real
  by (simp_all add: add_pos_pos)

lemma choices_bool_eq: "choices_bool p g = (shd (uniforms g) \<ge> 1 - p, g\<lparr>uniforms := stl (uniforms g)\<rparr>)"
  by (simp add: choices_bool_def random_float_def not_less)

lemma unit_draws_shd: "unit_draws g \<Longrightarrow> 0 \<le> shd (uniforms g) \<and> shd (uniforms g) < 1"
  unfolding unit_draws_def using shd_sset [of "uniforms g"] by auto

lemma fitness_numeric: "weight a = Some w \<Longrightarrow> 0 < w \<Longrightarrow> fitness P a = Inr (fitness_calculation (age a) w P)"
  by (simp add: fitness_def)

subsection \<open>Carnivores.eat\<close>

lemma cumsum_from_length: "length (cumsum_from acc xs) = length xs"
  by (induction xs arbitrary: acc) auto

lemma cumsum_from_nth: "i < length xs \<Longrightarrow> cumsum_from acc xs ! i = acc + sum_list (take (Suc i) xs)"
proof (induction xs arbitrary: acc i)
  case Nil then show ?case by simp
next
  case (Cons x xs)
  then show ?case by (cases i) (auto simp: add.assoc)
qed

lemma cumsum_from_sorted: "\<forall>x\<in>set xs. 0 \<le> x \<Longrightarrow> sorted (cumsum_from acc xs) \<and> (\<forall>c\<in>set (cumsum_from acc xs). acc \<le> c)"
proof (induction xs arbitrary: acc)
  case Nil then show ?case by simp
next
  case (Cons x xs)
  have "sorted (cumsum_from (acc + x) xs) \<and> (\<forall>c\<in>set (cumsum_from (acc + x) xs). acc + x \<le> c)"
    using Cons by simp
  moreover have "0 \<le> x" using Cons.prems by simp
  ultimately show ?case by fastforce
qed

lemma cumsum_length: "length (cumsum xs) = length xs"
  by (simp add: cumsum_def cumsum_from_length)

lemma cumsum_nth: "i < length xs \<Longrightarrow> cumsum xs ! i = sum_list (take (Suc i) xs)"
  by (simp add: cumsum_def cumsum_from_nth)

lemma cumsum_sorted: "\<forall>x\<in>set xs. 0 \<le> x \<Longrightarrow> sorted (cumsum xs)"
  by (simp add: cumsum_def cumsum_from_sorted)

lemma binsearch_left_sorted:
  assumes "sorted arr" "lo \<le> hi" "hi \<le> length arr"
    "\<forall>i<lo. arr ! i < key" "\<forall>i. hi \<le> i \<and> i < length arr \<longrightarrow> key \<le> arr ! i"
  shows "binsearch_left arr key lo hi = length (takeWhile (\<lambda>c. c < key) arr)"
  using assms
proof (induction arr key lo hi rule: binsearch_left.induct)
  case (1 arr key lo hi)
  show ?case
  proof (cases "lo < hi")
    case False
    then have eq: "lo = hi" using "1.prems" by simp
    have "takeWhile (\<lambda>c. c < key) arr = take lo arr"
    proof (rule takeWhile_eq_take_P_nth)
      fix i assume "i < lo" then show "arr ! i < key" using "1.prems" by simp
    next
      assume "lo < length arr"
      then show "\<not> arr ! lo < key" using "1.prems"(5) eq by (simp add: not_less)
    qed
    then have "length (takeWhile (\<lambda>c. c < key) arr) = lo"
      using "1.prems" eq by simp
    then show ?thesis using False by simp
  next
    case True
    define mid where "mid = lo + (hi - lo) div 2"
    have m: "lo \<le> mid" "mid < hi" using True by (auto simp: mid_def)
    have mlen: "mid < length arr" using m "1.prems" by simp
    show ?thesis
    proof (cases "arr ! mid < key")
      case lt: True
      have below: "\<forall>i<mid + 1. arr ! i < key"
      proof (intro allI impI)
        fix i assume "i < mid + 1"
        then have "i \<le> mid" by simp
        then have "arr ! i \<le> arr ! mid"
          using "1.prems"(1) mlen by (simp add: sorted_nth_mono)
        then show "arr ! i < key" using lt by simp
      qed
      have "binsearch_left arr key (mid + 1) hi = length (takeWhile (\<lambda>c. c < key) arr)"
        using "1.IH"(1) [OF True mid_def lt] "1.prems" m below by simp
      then show ?thesis
        using True lt by (subst binsearch_left.simps) (simp add: mid_def Let_def)
    next
      case ge: False
      have above: "\<forall>i. mid \<le> i \<and> i < length arr \<longrightarrow> key \<le> arr ! i"
      proof (intro allI impI)
        fix i assume "mid \<le> i \<and> i < length arr"
        then have "arr ! mid \<le> arr ! i"
          using "1.prems"(1) by (simp add: sorted_nth_mono)
        then show "key \<le> arr ! i" using ge by simp
      qed
      have "binsearch_left arr key lo mid = length (takeWhile (\<lambda>c. c < key) arr)"
        using "1.IH"(2) [OF True mid_def ge] "1.prems" m above mlen by simp
      then show ?thesis
        using True ge by (subst binsearch_left.simps) (simp add: mid_def Let_def)
    qed
  qed
qed

lemma searchsorted_first: "sorted arr \<Longrightarrow> searchsorted arr key = length (takeWhile (\<lambda>c. c < key) arr)"
  unfolding searchsorted_def by (rule binsearch_left_sorted) auto

lemma hunt_loop_total:
  assumes "\<forall>a\<in>set xs. weight a \<noteq> None"
  shows "\<exists>hl g1. hunt_loop P H fit xs g = Inr (hl, g1) \<and> set hl \<subseteq> set xs"
  using assms
proof (induction xs arbitrary: g)
  case Nil then show ?case by simp
next
  case (Cons a xs)
  obtain af where af: "fitness H a = Inr af"
    using Cons.prems by (cases "weight a"; cases "the (weight a) \<le> 0") (auto simp: fitness_def)
  obtain coin g1 where c: "choices_bool (kill_prob P fit af) g = (coin, g1)"
    by (metis surj_pair)
  obtain hl g2 where r: "hunt_loop P H fit xs g1 = Inr (hl, g2)" "set hl \<subseteq> set xs"
    using Cons.IH [of g1] Cons.prems by auto
  show ?case using af c r by auto
qed

lemma those_weights:
  assumes "\<forall>a\<in>set hl. \<exists>w. weight a = Some w \<and> 0 \<le> w"
  shows "\<exists>ws. those (map weight hl) = Some ws \<and> length ws = length hl \<and> (\<forall>x\<in>set ws. 0 \<le> x)"
  using assms
proof (induction hl)
  case Nil then show ?case by simp
next
  case (Cons a hl)
  then obtain ws where "those (map weight hl) = Some ws" "length ws = length hl" "\<forall>x\<in>set ws. 0 \<le> x"
    by auto
  moreover obtain w where "weight a = Some w" "0 \<le> w" using Cons.prems by auto
  ultimately show ?case by simp
qed

lemma takeWhile_cumsum_below:
  assumes "sorted cs" "i < length cs" "cs ! i < key"
  shows "Suc i \<le> length (takeWhile (\<lambda>c. c < key) cs)"
proof (rule length_takeWhile_less_P_nth)
  fix j assume "j < Suc i"
  then have "cs ! j \<le> cs ! i" using assms by (simp add: sorted_nth_mono)
  then show "cs ! j < key" using assms by simp
next
  show "Suc i \<le> length cs" using assms by simp
qed

lemma takeWhile_cumsum_above:
  assumes "i < length cs" "\<not> cs ! i < key"
  shows "length (takeWhile (\<lambda>c. c < key) cs) \<le> i"
proof (rule ccontr)
  assume "\<not> ?thesis"
  then have lt: "i < length (takeWhile (\<lambda>c. c < key) cs)" by simp
  then have "takeWhile (\<lambda>c. c < key) cs ! i \<in> set (takeWhile (\<lambda>c. c < key) cs)"
    by simp
  then have "takeWhile (\<lambda>c. c < key) cs ! i < key" by (metis set_takeWhileD)
  then show False using assms lt by (simp add: takeWhile_nth)
qed

lemma carn_fit: "81 / 100 \<le> fitness_calculation 5 20 Carnivores_parameter"
proof -
  have a: "(1 + 21/2) / (2 + 21/2) \<le> 1 / (1 + exp (- (21/2) :: real))"
    by (rule logistic_lower) simp
  have b: "(1 + 32/5) / (2 + 32/5) \<le> 1 / (1 + exp (- (32/5) :: real))"
    by (rule logistic_lower) simp
  have "((1 + 21/2) / (2 + 21/2)) * ((1 + 32/5) / (2 + 32/5))
         \<le> (1 / (1 + exp (- (21/2) :: real))) * (1 / (1 + exp (- (32/5) :: real)))"
    using a b by (intro mult_mono) auto
  moreover have "fitness_calculation 5 20 Carnivores_parameter
      = (1 / (1 + exp (- (21/2) :: real))) * (1 / (1 + exp (- (32/5) :: real)))"
    by (simp add: fitness_calculation_def fitness_formula_def Carnivores_parameter_def)
  ultimately show ?thesis by simp
qed

lemma herb_fit: "0 < w \<Longrightarrow> fitness_calculation 50 w Herbivores_parameter \<le> 1 / 8"
proof -
  assume "0 < w"
  have a: "1 / (1 + exp (6 :: real)) \<le> 1 / (2 + 6)"
    by (rule logistic_upper) simp
  have b: "1 / (1 + exp (- (1 * (1 / 10 * (w - 10))))) \<le> 1"
    using logistic_lt_one(1) [of "- (1 * (1 / 10 * (w - 10)))"] by simp
  have "(1 / (1 + exp (6 :: real))) * (1 / (1 + exp (- (1 * (1 / 10 * (w - 10))))))
         \<le> (1 / (2 + 6)) * 1"
    using a b by (intro mult_mono) (auto simp: add_pos_pos less_imp_le)
  moreover have "fitness_calculation 50 w Herbivores_parameter
     = (1 / (1 + exp (6 :: real))) * (1 / (1 + exp (- (1 * (1 / 10 * (w - 10))))))"
    by (simp add: fitness_calculation_def fitness_formula_def Herbivores_parameter_def)
  ultimately show ?thesis by simp
qed

lemma kill_sure:
  assumes "81 / 100 \<le> fc" "fh \<le> 1 / 8" "fc < 1" "0 \<le> fh"
  shows "choices_bool (kill_prob Carnivores_parameter fc fh) \<lparr>uniforms = sconst (19 / 20), normals = n, integers = i\<rparr>
      = (True, \<lparr>uniforms = sconst (19 / 20), normals = n, integers = i\<rparr>)"
  using assms by (simp add: choices_bool_eq kill_prob_def Carnivores_parameter_def)

text \<open>
  C1, as the code has it. For a carnivore with a numeric weight and prey with non-negative
  numeric weights, \<open>hunt\<close> returns a list \<open>hunt_list\<close> and \<open>eat\<close> returns its prefix of
  length \<open>k + 1\<close>, where \<open>k\<close> is the number of leading cumulative weights below \<open>F\<close>:
  the victims in hunt order up to and including the first one at which the cumulative weight
  reaches \<open>F\<close>, or all of them when the total stays below \<open>F\<close>. The eaten list is never
  longer than the hunt list, the carnivore gains \<open>beta\<close> times the weight eaten, and the
  weight eaten before the last victim is below \<open>F\<close>; the total itself may pass \<open>F\<close>.
\<close>

theorem Carnivores_eat_prefix:
  assumes "weight self \<noteq> None"
      and "\<forall>a\<in>set prey. \<exists>w. weight a = Some w \<and> 0 \<le> w"
  shows "\<exists>hunt_list g1 ws w k.
           hunt P H self prey g = Inr (hunt_list, g1)
         \<and> those (map weight hunt_list) = Some ws \<and> weight self = Some w
         \<and> k = length (takeWhile (\<lambda>c. c < F P) (cumsum ws))
         \<and> Carnivores_eat P H self prey g =
             Inr (take (Suc k) hunt_list,
                  self\<lparr>weight := Some (w + beta P * sum_list (take (Suc k) ws))\<rparr>, g1)
         \<and> length (take (Suc k) hunt_list) \<le> length hunt_list
         \<and> (0 < k \<longrightarrow> sum_list (take k ws) < F P)
         \<and> (k < length ws \<longrightarrow> F P \<le> sum_list (take (Suc k) ws))"
proof -
  obtain w where w: "weight self = Some w" using assms(1) by auto
  obtain fit where fit: "fitness P self = Inr fit"
    using w by (cases "w \<le> 0") (auto simp: fitness_def)
  have "\<forall>a\<in>set prey. weight a \<noteq> None" using assms(2) by auto
  then obtain hl g1 where hl: "hunt_loop P H fit prey g = Inr (hl, g1)" "set hl \<subseteq> set prey"
    using hunt_loop_total by blast
  have h: "hunt P H self prey g = Inr (hl, g1)"
    using fit hl by (simp add: hunt_def)
  have "\<forall>a\<in>set hl. \<exists>w. weight a = Some w \<and> 0 \<le> w" using hl(2) assms(2) by blast
  then obtain ws where ws: "those (map weight hl) = Some ws" "length ws = length hl" "\<forall>x\<in>set ws. 0 \<le> x"
    using those_weights by blast
  define cs where "cs = cumsum ws"
  define k where "k = length (takeWhile (\<lambda>c. c < F P) cs)"
  have srt: "sorted cs" using ws(3) by (simp add: cs_def cumsum_sorted)
  have len: "length cs = length ws" by (simp add: cs_def cumsum_length)
  have nth: "\<And>i. i < length ws \<Longrightarrow> cs ! i = sum_list (take (Suc i) ws)"
    by (simp add: cs_def cumsum_nth)
  have kle: "k \<le> length ws" unfolding k_def using length_takeWhile_le [of _ cs] len by metis
  have below: "0 < k \<longrightarrow> sum_list (take k ws) < F P"
  proof
    assume "0 < k"
    then obtain j where j: "k = Suc j" by (cases k) auto
    then have jl: "j < length (takeWhile (\<lambda>c. c < F P) cs)" by (simp add: k_def)
    then have "takeWhile (\<lambda>c. c < F P) cs ! j \<in> set (takeWhile (\<lambda>c. c < F P) cs)" by simp
    then have "takeWhile (\<lambda>c. c < F P) cs ! j < F P" by (metis set_takeWhileD)
    then have "cs ! j < F P" using jl by (simp add: takeWhile_nth)
    moreover have "j < length ws" using j kle by simp
    ultimately show "sum_list (take k ws) < F P" using nth j by simp
  qed
  have above: "k < length ws \<longrightarrow> F P \<le> sum_list (take (Suc k) ws)"
  proof
    assume kl: "k < length ws"
    then have "\<not> cs ! k < F P"
      unfolding k_def using nth_length_takeWhile [of "\<lambda>c. c < F P" cs] len by simp
    then show "F P \<le> sum_list (take (Suc k) ws)" using nth kl by simp
  qed
  have eat: "Carnivores_eat P H self prey g =
             Inr (take (Suc k) hl, self\<lparr>weight := Some (w + beta P * sum_list (take (Suc k) ws))\<rparr>, g1)"
  proof (cases "length ws < 2")
    case True
    then consider "ws = []" | x where "ws = [x]"
      by (cases ws; cases "tl ws") auto
    then show ?thesis
    proof cases
      case 1
      then have "hl = []" using ws(2) by simp
      then show ?thesis
        using h w ws(1) 1 by (simp add: Carnivores_eat_def cumsum_def)
    next
      case 2
      then have "length hl = 1" using ws(2) by simp
      then have "take (Suc k) hl = hl" by simp
      then show ?thesis
        using h w ws(1) 2 by (simp add: Carnivores_eat_def cumsum_def)
    qed
  next
    case False
    then have n2: "2 \<le> length ws" by simp
    show ?thesis
    proof (cases "F P > cs ! (length ws - 2)")
      case True
      have "Suc (length ws - 2) \<le> k"
        unfolding k_def using srt True n2 len by (intro takeWhile_cumsum_below) auto
      then have k1: "length ws - 1 \<le> k" using n2 by simp
      then have t1: "take (Suc k) hl = hl" using ws(2) by simp
      have t2: "take (Suc k) ws = ws" using k1 by simp
      have "cs ! (length ws - 1) = sum_list ws"
        using nth [of "length ws - 1"] n2 by simp
      then show ?thesis
        using h w ws(1) False True len t1 t2
        by (simp add: Carnivores_eat_def Let_def cs_def [symmetric])
    next
      case ge: False
      have "k \<le> length ws - 2"
        unfolding k_def using ge n2 len by (intro takeWhile_cumsum_above) auto
      then have kl: "k < length ws" using n2 by simp
      have ss: "searchsorted cs (F P) = k"
        using srt by (simp add: searchsorted_first k_def)
      show ?thesis
        using h w ws(1) False ge len kl ss nth [OF kl]
        by (simp add: Carnivores_eat_def Let_def cs_def [symmetric])
    qed
  qed
  show ?thesis
    using h ws(1) w eat below above unfolding k_def cs_def by auto
qed

text \<open>C1, witness: a carnivore of age 5 and weight 20 before two herbivores.\<close>

theorem Carnivores_eat_prefix_witness:
  "\<exists>hunt_list g1 ws w k.
      hunt Carnivores_parameter Herbivores_parameter
        \<lparr>age = 5, weight = Some 20, moved = False, ident = 0\<rparr>
        [\<lparr>age = 50, weight = Some 30, moved = False, ident = 3\<rparr>,
         \<lparr>age = 50, weight = Some 40, moved = False, ident = 4\<rparr>]
        \<lparr>uniforms = sconst (19 / 20), normals = sconst 0, integers = sconst 0\<rparr>
        = Inr (hunt_list, g1)
    \<and> those (map weight hunt_list) = Some ws
    \<and> weight \<lparr>age = 5, weight = Some 20, moved = False, ident = 0\<rparr> = Some w
    \<and> k = length (takeWhile (\<lambda>c. c < F Carnivores_parameter) (cumsum ws))
    \<and> Carnivores_eat Carnivores_parameter Herbivores_parameter
        \<lparr>age = 5, weight = Some 20, moved = False, ident = 0\<rparr>
        [\<lparr>age = 50, weight = Some 30, moved = False, ident = 3\<rparr>,
         \<lparr>age = 50, weight = Some 40, moved = False, ident = 4\<rparr>]
        \<lparr>uniforms = sconst (19 / 20), normals = sconst 0, integers = sconst 0\<rparr>
        = Inr (take (Suc k) hunt_list,
               \<lparr>age = 5, weight = Some 20, moved = False, ident = 0\<rparr>
                 \<lparr>weight := Some (w + beta Carnivores_parameter * sum_list (take (Suc k) ws))\<rparr>,
               g1)
    \<and> length (take (Suc k) hunt_list) \<le> length hunt_list
    \<and> (0 < k \<longrightarrow> sum_list (take k ws) < F Carnivores_parameter)
    \<and> (k < length ws \<longrightarrow> F Carnivores_parameter \<le> sum_list (take (Suc k) ws))"
  by (rule Carnivores_eat_prefix) simp_all

text \<open>
  C1, counterexample to "the weight consumed never exceeds \<open>F\<close>": with the default tables
  (\<open>F = 50\<close>) the carnivore kills and eats both herbivores, 30 + 40 = 70 in all.
\<close>

theorem Carnivores_eat_exceeds_F_counterexample:
  "Carnivores_eat Carnivores_parameter Herbivores_parameter
      \<lparr>age = 5, weight = Some 20, moved = False, ident = 0\<rparr>
      [\<lparr>age = 50, weight = Some 30, moved = False, ident = 3\<rparr>, \<lparr>age = 50, weight = Some 40, moved = False, ident = 4\<rparr>]
      \<lparr>uniforms = sconst (19 / 20), normals = sconst 0, integers = sconst 0\<rparr>
    = Inr ([\<lparr>age = 50, weight = Some 30, moved = False, ident = 3\<rparr>, \<lparr>age = 50, weight = Some 40, moved = False, ident = 4\<rparr>],
           \<lparr>age = 5, weight = Some (20 + 75 / 100 * (30 + 40)), moved = False, ident = 0\<rparr>,
           \<lparr>uniforms = sconst (19 / 20), normals = sconst 0, integers = sconst 0\<rparr>)
   \<and> \<not> (30 + 40 \<le> F Carnivores_parameter)"
proof -
  let ?g = "\<lparr>uniforms = sconst (19 / 20), normals = sconst 0, integers = sconst 0\<rparr>"
  let ?c = "\<lparr>age = 5, weight = Some 20, moved = False, ident = 0\<rparr>"
  let ?h1 = "\<lparr>age = 50, weight = Some 30, moved = False, ident = 3\<rparr>"
  let ?h2 = "\<lparr>age = 50, weight = Some 40, moved = False, ident = 4\<rparr>"
  define fc where "fc = fitness_calculation 5 20 Carnivores_parameter"
  define f1 where "f1 = fitness_calculation 50 30 Herbivores_parameter"
  define f2 where "f2 = fitness_calculation 50 40 Herbivores_parameter"
  have fc: "81 / 100 \<le> fc" "fc < 1"
    unfolding fc_def using carn_fit apply simp
    unfolding fitness_calculation_def fitness_formula_def
    by (smt (verit) logistic_lt_one mult_less_cancel_right2)
  have f1: "f1 \<le> 1 / 8" "0 \<le> f1"
    unfolding f1_def using herb_fit [of 30] apply simp
    unfolding fitness_calculation_def fitness_formula_def
    by (simp add: add_pos_pos less_imp_le)
  have f2: "f2 \<le> 1 / 8" "0 \<le> f2"
    unfolding f2_def using herb_fit [of 40] apply simp
    unfolding fitness_calculation_def fitness_formula_def
    by (simp add: add_pos_pos less_imp_le)
  have k1: "choices_bool (kill_prob Carnivores_parameter fc f1) ?g = (True, ?g)"
    by (rule kill_sure [OF fc(1) f1(1) fc(2) f1(2)])
  have k2: "choices_bool (kill_prob Carnivores_parameter fc f2) ?g = (True, ?g)"
    by (rule kill_sure [OF fc(1) f2(1) fc(2) f2(2)])
  have h: "hunt Carnivores_parameter Herbivores_parameter ?c [?h1, ?h2] ?g = Inr ([?h1, ?h2], ?g)"
    by (simp add: hunt_def fitness_def fc_def [symmetric] f1_def [symmetric] f2_def [symmetric] k1 k2)
  have F: "F Carnivores_parameter = 50" "beta Carnivores_parameter = 75 / 100"
    by (simp_all add: Carnivores_parameter_def)
  show ?thesis
    by (simp add: Carnivores_eat_def h cumsum_def F)
qed

subsection \<open>Animal.die\<close>

text \<open>
  C8, as the code has it. \<open>die\<close> returns true for every random stream when the weight is
  0, at any age; for a positive weight it is the coin \<open>1 - omega * (1 - fitness) \<le> r\<close> on
  the next value \<open>r\<close> of \<^verbatim>\<open>random()\<close>, so with \<open>omega = 0\<close> it is always false, and
  with \<open>omega = 10\<close> it is always true whenever the fitness is at most 9/10, that is
  whenever \<open>omega * (1 - fitness)\<close> reaches 1.
\<close>

theorem die_coin:
  "(weight a = Some 0 \<longrightarrow> die P a g = Inr (True, g))
   \<and> (weight a = Some w \<and> 0 < w \<longrightarrow>
        (\<exists>fit. fitness P a = Inr fit
           \<and> die P a g = Inr (1 - omega P * (1 - fit) \<le> shd (uniforms g),
                               g\<lparr>uniforms := stl (uniforms g)\<rparr>)))
   \<and> (weight a = Some w \<and> 0 < w \<and> omega P = 0 \<and> unit_draws g \<longrightarrow>
        map_sum id fst (die P a g) = Inr False)
   \<and> (weight a = Some w \<and> 0 < w \<and> omega P = 10 \<and> unit_draws g
        \<and> fitness P a = Inr fit \<and> fit \<le> 9 / 10 \<longrightarrow>
        map_sum id fst (die P a g) = Inr True)"
proof (intro conjI impI)
  assume "weight a = Some 0"
  then show "die P a g = Inr (True, g)" by (simp add: die_def)
next
  assume h: "weight a = Some w \<and> 0 < w"
  then have "fitness P a = Inr (fitness_calculation (age a) w P)"
    by (simp add: fitness_numeric)
  then show "\<exists>fit. fitness P a = Inr fit
           \<and> die P a g = Inr (1 - omega P * (1 - fit) \<le> shd (uniforms g),
                               g\<lparr>uniforms := stl (uniforms g)\<rparr>)"
    using h by (simp add: die_def choices_bool_eq)
next
  assume h: "weight a = Some w \<and> 0 < w \<and> omega P = 0 \<and> unit_draws g"
  then have f: "fitness P a = Inr (fitness_calculation (age a) w P)"
    by (simp add: fitness_numeric)
  have "shd (uniforms g) < 1" using h unit_draws_shd by blast
  then show "map_sum id fst (die P a g) = Inr False"
    using h f by (simp add: die_def choices_bool_eq)
next
  assume h: "weight a = Some w \<and> 0 < w \<and> omega P = 10 \<and> unit_draws g
        \<and> fitness P a = Inr fit \<and> fit \<le> 9 / 10"
  have "0 \<le> shd (uniforms g)" using h unit_draws_shd by blast
  then show "map_sum id fst (die P a g) = Inr True"
    using h by (simp add: die_def choices_bool_eq)
qed

text \<open>
  C8, witness: a herbivore of weight 0, and one of age 1 and weight 2 under \<open>omega = 0\<close>
  and under \<open>omega = 10\<close>.
\<close>

theorem die_coin_witness:
  "die Herbivores_parameter \<lparr>age = 1, weight = Some 0, moved = False, ident = 0\<rparr>
       \<lparr>uniforms = sconst (1 / 2), normals = sconst 0, integers = sconst 0\<rparr>
     = Inr (True, \<lparr>uniforms = sconst (1 / 2), normals = sconst 0, integers = sconst 0\<rparr>)
   \<and> (\<exists>fit. fitness Herbivores_parameter \<lparr>age = 1, weight = Some 2, moved = False, ident = 0\<rparr> = Inr fit
        \<and> die Herbivores_parameter \<lparr>age = 1, weight = Some 2, moved = False, ident = 0\<rparr>
              \<lparr>uniforms = sconst (1 / 2), normals = sconst 0, integers = sconst 0\<rparr>
            = Inr (1 - omega Herbivores_parameter * (1 - fit) \<le> 1 / 2,
                   \<lparr>uniforms = sconst (1 / 2), normals = sconst 0, integers = sconst 0\<rparr>))
   \<and> map_sum id fst
        (die (Herbivores_parameter\<lparr>omega := 0\<rparr>) \<lparr>age = 1, weight = Some 2, moved = False, ident = 0\<rparr>
           \<lparr>uniforms = sconst (1 / 2), normals = sconst 0, integers = sconst 0\<rparr>) = Inr False
   \<and> map_sum id fst
        (die (Herbivores_parameter\<lparr>omega := 10\<rparr>) \<lparr>age = 1, weight = Some 2, moved = False, ident = 0\<rparr>
           \<lparr>uniforms = sconst (1 / 2), normals = sconst 0, integers = sconst 0\<rparr>) = Inr True"
proof -
  let ?g = "\<lparr>uniforms = sconst (1 / 2), normals = sconst 0, integers = sconst 0\<rparr>"
  let ?z = "\<lparr>age = 1, weight = Some 0, moved = False, ident = 0\<rparr>"
  let ?a = "\<lparr>age = 1, weight = Some 2, moved = False, ident = 0\<rparr>"
  have u: "unit_draws ?g" by (simp add: unit_draws_def)
  define fit where "fit = fitness_calculation 1 2 (Herbivores_parameter\<lparr>omega := 10\<rparr>)"
  have f: "fitness (Herbivores_parameter\<lparr>omega := 10\<rparr>) ?a = Inr fit"
    by (simp add: fitness_def fit_def)
  have a: "1 / (1 + exp (4 / 5 :: real)) \<le> 1 / (2 + 4 / 5)"
    by (rule logistic_upper) simp
  have b: "1 / (1 + exp (- (117 / 5) :: real)) \<le> 1"
    using logistic_lt_one(1) [of "- (117 / 5)"] by simp
  have c: "(1 / (1 + exp (- (117 / 5) :: real))) * (1 / (1 + exp (4 / 5 :: real)))
          \<le> 1 * (1 / (2 + 4 / 5))"
    using a b by (intro mult_mono) (auto simp: add_pos_pos less_imp_le)
  have d: "1 * (1 / (2 + 4 / 5)) \<le> (9 / 10 :: real)" by simp
  have e: "fit = (1 / (1 + exp (- (117 / 5) :: real))) * (1 / (1 + exp (4 / 5 :: real)))"
    by (simp add: fit_def fitness_calculation_def fitness_formula_def Herbivores_parameter_def)
  have le: "fit \<le> 9 / 10"
    unfolding e using c d by (rule order_trans)
  have 1: "die Herbivores_parameter ?z ?g = Inr (True, ?g)"
  proof -
    have "weight ?z = Some 0" by simp
    then show ?thesis
      using die_coin [where a = ?z and P = Herbivores_parameter and g = ?g and w = 0 and fit = 0]
      by blast
  qed
  have 2: "\<exists>fit. fitness Herbivores_parameter ?a = Inr fit
        \<and> die Herbivores_parameter ?a ?g
            = Inr (1 - omega Herbivores_parameter * (1 - fit) \<le> 1 / 2, ?g)"
  proof -
    have "weight ?a = Some 2 \<and> (0 :: real) < 2" by simp
    then have "\<exists>fit. fitness Herbivores_parameter ?a = Inr fit
        \<and> die Herbivores_parameter ?a ?g
            = Inr (1 - omega Herbivores_parameter * (1 - fit) \<le> shd (uniforms ?g),
                   ?g\<lparr>uniforms := stl (uniforms ?g)\<rparr>)"
      using die_coin [where a = ?a and P = Herbivores_parameter and g = ?g and w = 2 and fit = 0]
      by blast
    then show ?thesis by simp
  qed
  have 3: "map_sum id fst (die (Herbivores_parameter\<lparr>omega := 0\<rparr>) ?a ?g) = Inr False"
  proof -
    have "weight ?a = Some 2 \<and> (0 :: real) < 2
            \<and> omega (Herbivores_parameter\<lparr>omega := 0\<rparr>) = 0 \<and> unit_draws ?g"
      using u by simp
    then show ?thesis
      using die_coin [where a = ?a and P = "Herbivores_parameter\<lparr>omega := 0\<rparr>" and g = ?g
                        and w = 2 and fit = 0]
      by blast
  qed
  have 4: "map_sum id fst (die (Herbivores_parameter\<lparr>omega := 10\<rparr>) ?a ?g) = Inr True"
  proof -
    have "weight ?a = Some 2 \<and> (0 :: real) < 2
            \<and> omega (Herbivores_parameter\<lparr>omega := 10\<rparr>) = 10 \<and> unit_draws ?g
            \<and> fitness (Herbivores_parameter\<lparr>omega := 10\<rparr>) ?a = Inr fit \<and> fit \<le> 9 / 10"
      using u f le by simp
    then show ?thesis
      using die_coin [where a = ?a and P = "Herbivores_parameter\<lparr>omega := 10\<rparr>" and g = ?g
                        and w = 2 and fit = fit]
      by blast
  qed
  show ?thesis using 1 2 3 4 by blast
qed

text \<open>
  C8, counterexample to "with \<open>omega = 10\<close> it always returns true": a newborn-aged
  herbivore of weight 210 has fitness above 9/10, so \<open>omega * (1 - fitness) < 1\<close> and the
  draw \<open>r = 0\<close> lets it live.
\<close>

theorem die_omega_10_counterexample:
  "die (Herbivores_parameter\<lparr>omega := 10\<rparr>) \<lparr>age = 0, weight = Some 210, moved = False, ident = 0\<rparr>
       \<lparr>uniforms = sconst 0, normals = sconst 0, integers = sconst 0\<rparr>
     = Inr (False, \<lparr>uniforms = sconst 0, normals = sconst 0, integers = sconst 0\<rparr>)"
proof -
  have a: "(1 + 24) / (2 + 24) \<le> 1 / (1 + exp (- 24 :: real))"
    by (rule logistic_lower) simp
  have b: "(1 + 20) / (2 + 20) \<le> 1 / (1 + exp (- 20 :: real))"
    by (rule logistic_lower) simp
  have "((1 + 24) / (2 + 24)) * ((1 + 20) / (2 + 20))
          \<le> (1 / (1 + exp (- 24 :: real))) * (1 / (1 + exp (- 20 :: real)))"
    using a b by (intro mult_mono) auto
  then have c: "9 / 10 < (1 / (1 + exp (- 24 :: real))) * (1 / (1 + exp (- 20 :: real)))"
    by simp
  have f: "fitness_calculation 0 210 (Herbivores_parameter\<lparr>omega := 10\<rparr>)
             = (1 / (1 + exp (- 24 :: real))) * (1 / (1 + exp (- 20 :: real)))"
    by (simp add: fitness_calculation_def fitness_formula_def Herbivores_parameter_def)
  show ?thesis
    using c unfolding die_def fitness_def choices_bool_eq f
    by (simp add: f)
qed

subsection \<open>Animal.procreate\<close>

text \<open>
  C6. Whenever \<open>procreate\<close> returns, a newborn is returned exactly when the weight is at
  least \<open>zeta * (w_birth + sigma_birth)\<close>, the age is above 1, the coin with probability
  \<open>min 1 (gamma * fitness * N)\<close> succeeds, and the mother can pay \<open>xi\<close> times the drawn
  baby weight; then the newborn has age 0 and that weight and the mother has lost
  \<open>xi * baby_weight\<close>. Otherwise (in particular at age 1 or below, and when the payment
  would make her weight negative) nothing is born and the mother is unchanged.
\<close>

theorem procreate_grant:
  assumes "procreate P a N g = Inr (res, a', g')"
  shows "\<exists>w fit coin g1 bw.
           weight a = Some w \<and> fitness P a = Inr fit
         \<and> (coin, g1) = choices_bool (min 1 (gamma P * fit * real N)) g
         \<and> bw = fst (lognormvariate (log_mu P) (log_sigma P) g1)
         \<and> (res \<noteq> None \<longleftrightarrow>
              w \<ge> zeta P * (w_birth P + sigma_birth P) \<and> age a > 1 \<and> coin
              \<and> w - xi P * bw \<ge> 0)
         \<and> (res \<noteq> None \<longrightarrow>
              res = Some (Animal_init 0 (Some bw) (next_id g))
              \<and> a' = a\<lparr>weight := Some (w - xi P * bw)\<rparr>)
         \<and> (res = None \<longrightarrow> a' = a)
         \<and> (age a \<le> 1 \<longrightarrow> res = None)"
proof -
  from assms obtain w where w: "weight a = Some w"
    by (cases "weight a") (auto simp: procreate_def fitness_def split: if_splits)
  obtain fit where fit: "fitness P a = Inr fit"
    using w by (cases "w \<le> 0") (auto simp: fitness_def)
  obtain coin g1 where c: "(coin, g1) = choices_bool (min 1 (gamma P * fit * real N)) g"
    by (metis surj_pair)
  obtain bw g2 where b: "(bw, g2) = lognormvariate (log_mu P) (log_sigma P) g1"
    by (metis surj_pair)
  have nz: "\<not> (sqrt ((w_birth P)\<^sup>2 + (sigma_birth P)\<^sup>2) = 0 \<or> (w_birth P)\<^sup>2 = 0)"
    using assms by (auto simp: procreate_def split: if_splits)
  have bw: "bw = fst (lognormvariate (log_mu P) (log_sigma P) g1)"
    using b by (metis fst_conv)
  have ids: "next_id g2 = next_id g"
    using c b by (auto simp: choices_bool_eq lognormvariate_def)
  have *: "(res \<noteq> None \<longleftrightarrow>
              w \<ge> zeta P * (w_birth P + sigma_birth P) \<and> age a > 1 \<and> coin
              \<and> w - xi P * bw \<ge> 0)
         \<and> (res \<noteq> None \<longrightarrow>
              res = Some (Animal_init 0 (Some bw) (next_id g))
              \<and> a' = a\<lparr>weight := Some (w - xi P * bw)\<rparr>)
         \<and> (res = None \<longrightarrow> a' = a)
         \<and> (age a \<le> 1 \<longrightarrow> res = None)"
    using assms nz w fit c [symmetric] b [symmetric] ids
    unfolding procreate_def
    by (auto simp: Let_def mult.commute split: if_splits)
  show ?thesis using w fit c bw * by blast
qed

text \<open>C6, witness: a herbivore of age 1 and weight 50 among 150.\<close>

theorem procreate_grant_witness:
  "\<exists>w fit coin g1 bw.
      weight \<lparr>age = 1, weight = Some 50, moved = False, ident = 0\<rparr> = Some w
    \<and> fitness Herbivores_parameter \<lparr>age = 1, weight = Some 50, moved = False, ident = 0\<rparr> = Inr fit
    \<and> (coin, g1) = choices_bool (min 1 (gamma Herbivores_parameter * fit * real 150))
                      \<lparr>uniforms = sconst 0, normals = sconst 0, integers = sconst 0, next_id = 7\<rparr>
    \<and> bw = fst (lognormvariate (log_mu Herbivores_parameter) (log_sigma Herbivores_parameter) g1)
    \<and> ((None :: animal option) \<noteq> None \<longleftrightarrow>
          w \<ge> zeta Herbivores_parameter
                 * (w_birth Herbivores_parameter + sigma_birth Herbivores_parameter)
          \<and> age \<lparr>age = 1, weight = Some 50, moved = False, ident = 0\<rparr> > 1 \<and> coin
          \<and> w - xi Herbivores_parameter * bw \<ge> 0)"
proof -
  let ?g = "\<lparr>uniforms = sconst 0, normals = sconst 0, integers = sconst 0, next_id = 7\<rparr>"
  let ?a = "\<lparr>age = 1, weight = Some 50, moved = False, ident = 0\<rparr>"
  have "procreate Herbivores_parameter ?a 150 ?g = Inr (None, ?a, ?g)"
    by (simp add: procreate_def fitness_def choices_bool_eq Herbivores_parameter_def
          power2_eq_square)
  from procreate_grant [OF this] show ?thesis by blast
qed

subsection \<open>The default weight\<close>

text \<open>
  C10. An animal built with the default weight argument has weight \<^verbatim>\<open>None\<close>. On an animal
  without a weight, \<open>fitness\<close>, \<open>weight_loss_per_year\<close> and \<open>die\<close> raise
  \<^verbatim>\<open>TypeError\<close>, and so does \<open>procreate\<close> under every table with a non-zero
  \<open>w_birth\<close> (with \<open>w_birth = 0\<close> the division in the logarithm raises first). With a
  numeric weight each of them returns.
\<close>

theorem none_weight_raises:
  "weight (Animal_init n None i) = None
   \<and> (weight a = None \<longrightarrow>
         fitness P a = Inl TypeError
       \<and> weight_loss_per_year P a = Inl TypeError
       \<and> die P a g = Inl TypeError
       \<and> (w_birth P \<noteq> 0 \<longrightarrow> procreate P a N g = Inl TypeError))
   \<and> (weight a \<noteq> None \<longrightarrow>
         (\<exists>f. fitness P a = Inr f)
       \<and> (\<exists>a'. weight_loss_per_year P a = Inr a')
       \<and> (\<exists>r. die P a g = Inr r)
       \<and> (w_birth P \<noteq> 0 \<longrightarrow> (\<exists>r. procreate P a N g = Inr r)))"
proof (intro conjI impI)
  show "weight (Animal_init n None i) = None" by (simp add: Animal_init_def)
next
  assume "weight a = None"
  then show "fitness P a = Inl TypeError" by (simp add: fitness_def)
next
  assume "weight a = None"
  then show "weight_loss_per_year P a = Inl TypeError" by (simp add: weight_loss_per_year_def)
next
  assume "weight a = None"
  then show "die P a g = Inl TypeError" by (simp add: die_def fitness_def)
next
  assume "weight a = None" "w_birth P \<noteq> 0"
  then show "procreate P a N g = Inl TypeError" by (simp add: procreate_def fitness_def)
next
  assume "weight a \<noteq> None"
  then show "\<exists>f. fitness P a = Inr f" by (auto simp: fitness_def)
next
  assume "weight a \<noteq> None"
  then show "\<exists>a'. weight_loss_per_year P a = Inr a'"
    by (auto simp: weight_loss_per_year_def Let_def)
next
  assume "weight a \<noteq> None"
  then show "\<exists>r. die P a g = Inr r" by (auto simp: die_def fitness_def)
next
  assume "weight a \<noteq> None" "w_birth P \<noteq> 0"
  then show "\<exists>r. procreate P a N g = Inr r"
    by (auto simp: procreate_def fitness_def Let_def split: prod.splits)
qed

text \<open>C10, witness: a herbivore with the default weight, and one of weight 1.\<close>

theorem none_weight_raises_witness:
  "fitness Herbivores_parameter (Animal_init 0 None 0) = Inl TypeError
   \<and> weight_loss_per_year Herbivores_parameter (Animal_init 0 None 0) = Inl TypeError
   \<and> die Herbivores_parameter (Animal_init 0 None 0)
         \<lparr>uniforms = sconst 0, normals = sconst 0, integers = sconst 0, next_id = 7\<rparr> = Inl TypeError
   \<and> procreate Herbivores_parameter (Animal_init 0 None 0) 1
         \<lparr>uniforms = sconst 0, normals = sconst 0, integers = sconst 0, next_id = 7\<rparr> = Inl TypeError
   \<and> (\<exists>r. procreate Herbivores_parameter (Animal_init 0 (Some 1) 0) 1
         \<lparr>uniforms = sconst 0, normals = sconst 0, integers = sconst 0, next_id = 7\<rparr> = Inr r)"
proof -
  let ?g = "\<lparr>uniforms = sconst 0, normals = sconst 0, integers = sconst 0, next_id = 7\<rparr>"
  have n: "weight (Animal_init 0 None 0) = None" "weight (Animal_init 0 (Some 1) 0) \<noteq> None"
    by (simp_all add: Animal_init_def)
  have w: "w_birth Herbivores_parameter \<noteq> 0" by (simp add: Herbivores_parameter_def)
  show ?thesis
    using none_weight_raises [where n = 0 and i = 0 and a = "Animal_init 0 None 0" and P = Herbivores_parameter and g = ?g and N = 1]
      none_weight_raises [where n = 0 and i = 0 and a = "Animal_init 0 (Some 1) 0" and P = Herbivores_parameter and g = ?g and N = 1] n w
    by blast
qed

subsection \<open>Cell.feed_animals\<close>

lemma shuffle_from_mset:
  "n < length x \<or> n = 0 \<Longrightarrow> mset (fst (shuffle_from n x g)) = mset x"
proof (induction n arbitrary: x g)
  case 0 then show ?case by simp
next
  case (Suc n)
  then have i: "Suc n < length x" by simp
  obtain j g1 where r: "randbelow (Suc n + 1) g = (j, g1)" by (metis surj_pair)
  then have "j < Suc n + 1" by (auto simp: randbelow_def)
  then have j: "j < length x" using i by simp
  let ?x = "x[Suc n := x ! j, j := x ! Suc n]"
  have m: "mset ?x = mset x" using i j by (simp add: mset_swap)
  have "n < length ?x \<or> n = 0" using i by simp
  then have "mset (fst (shuffle_from n ?x g1)) = mset ?x" by (rule Suc.IH)
  then show ?case using r m by simp
qed

lemma shuffle_mset: "mset (fst (shuffle x g)) = mset x"
  unfolding shuffle_def by (cases x) (simp_all add: shuffle_from_mset)

lemma Herbivores_eat_numeric:
  "weight a \<noteq> None \<Longrightarrow>
     Herbivores_eat H a = Inr (a\<lparr>weight := map_option (\<lambda>w. w + beta H * F H) (weight a)\<rparr>)"
  by (auto simp: Herbivores_eat_def)

lemma feed_loop_char:
  assumes "\<forall>a\<in>set xs. weight a \<noteq> None"
  shows "\<exists>k\<le>length xs.
           feed_loop H xs fod =
             Inr (map (\<lambda>a. a\<lparr>weight := map_option (\<lambda>w. w + beta H * F H) (weight a)\<rparr>) (take k xs)
                    @ drop k xs, fod - real k * F H)
         \<and> (\<forall>i<k. F H \<le> fod - real i * F H)
         \<and> (k < length xs \<longrightarrow> fod - real k * F H < F H)"
  using assms
proof (induction xs arbitrary: fod)
  case Nil
  then show ?case by simp
next
  case (Cons a xs)
  show ?case
  proof (cases "fod \<ge> F H")
    case False
    then have "feed_loop H (a # xs) fod = Inr (a # xs, fod)" by simp
    then show ?thesis using False by (intro exI [of _ 0]) simp
  next
    case True
    have e: "Herbivores_eat H a = Inr (a\<lparr>weight := map_option (\<lambda>w. w + beta H * F H) (weight a)\<rparr>)"
      using Cons.prems by (simp add: Herbivores_eat_numeric)
    obtain k where k: "k \<le> length xs"
      "feed_loop H xs (fod - F H) =
             Inr (map (\<lambda>a. a\<lparr>weight := map_option (\<lambda>w. w + beta H * F H) (weight a)\<rparr>) (take k xs)
                    @ drop k xs, fod - F H - real k * F H)"
      "\<forall>i<k. F H \<le> fod - F H - real i * F H"
      "k < length xs \<longrightarrow> fod - F H - real k * F H < F H"
      using Cons.IH [of "fod - F H"] Cons.prems by auto
    have a1: "fod - F H - real k * F H = fod - real (Suc k) * F H"
      by (simp add: algebra_simps)
    have a2: "\<forall>i<Suc k. F H \<le> fod - real i * F H"
    proof (intro allI impI)
      fix i assume "i < Suc k"
      show "F H \<le> fod - real i * F H"
      proof (cases i)
        case 0 then show ?thesis using True by simp
      next
        case (Suc i')
        then have "i' < k" using \<open>i < Suc k\<close> by simp
        then have "F H \<le> fod - F H - real i' * F H" using k(3) by simp
        then show ?thesis using Suc by (simp add: algebra_simps)
      qed
    qed
    show ?thesis
      apply (intro exI [of _ "Suc k"])
      using True e k(1,2,4) a1 a2 by simp
  qed
qed

text \<open>
  C7. In a cell whose herbivores have numeric weights and whose fodder is not negative,
  \<open>feed_animals\<close> returns: the herbivores are put in a shuffled order (a permutation of
  the residents), the first \<open>k\<close> of that order each find at least \<open>F\<close> and eat exactly
  \<open>F\<close>, gaining \<open>beta * F\<close>; the herbivore at position \<open>k\<close>, if any, finds less than
  \<open>F\<close>, and it and all after it are left as they were. The stock is never negative on
  the way, and the \<open>k * F\<close> consumed do not exceed the stock before feeding.
\<close>

theorem feed_animals_fodder:
  assumes "\<forall>a\<in>set (animal_list c). weight a \<noteq> None" and "0 \<le> fodder c"
  shows "\<exists>order g' k.
           shuffle (animal_list c) g = (order, g') \<and> mset order = mset (animal_list c)
         \<and> k \<le> length order
         \<and> feed_animals H c g =
             Inr (c\<lparr>animal_list :=
                      map (\<lambda>a. a\<lparr>weight := map_option (\<lambda>w. w + beta H * F H) (weight a)\<rparr>)
                        (take k order) @ drop k order,
                    fodder := fodder c - real k * F H\<rparr>, g')
         \<and> (\<forall>i<k. F H \<le> fodder c - real i * F H)
         \<and> (k < length order \<longrightarrow> fodder c - real k * F H < F H)
         \<and> (\<forall>i\<le>k. 0 \<le> fodder c - real i * F H)
         \<and> real k * F H \<le> fodder c"
proof -
  obtain order g' where s: "shuffle (animal_list c) g = (order, g')" by (metis surj_pair)
  have m: "mset order = mset (animal_list c)"
    using shuffle_mset [of "animal_list c" g] s by simp
  then have "set order = set (animal_list c)" by (metis set_mset_mset)
  then have num: "\<forall>a\<in>set order. weight a \<noteq> None" using assms(1) by simp
  obtain k where k: "k \<le> length order"
     "feed_loop H order (fodder c) =
             Inr (map (\<lambda>a. a\<lparr>weight := map_option (\<lambda>w. w + beta H * F H) (weight a)\<rparr>) (take k order)
                    @ drop k order, fodder c - real k * F H)"
     "\<forall>i<k. F H \<le> fodder c - real i * F H"
     "k < length order \<longrightarrow> fodder c - real k * F H < F H"
    using feed_loop_char [OF num, of H "fodder c"] by auto
  have nonneg: "\<forall>i\<le>k. 0 \<le> fodder c - real i * F H"
  proof (intro allI impI)
    fix i assume ik: "i \<le> k"
    show "0 \<le> fodder c - real i * F H"
    proof (cases i)
      case 0 then show ?thesis using assms(2) by simp
    next
      case (Suc i')
      then have "i' < k" using ik by simp
      then have "F H \<le> fodder c - real i' * F H" using k(3) by simp
      then show ?thesis using Suc by (simp add: algebra_simps)
    qed
  qed
  then have le: "real k * F H \<le> fodder c" by (metis diff_ge_0_iff_ge order_refl)
  have f: "feed_animals H c g =
             Inr (c\<lparr>animal_list :=
                      map (\<lambda>a. a\<lparr>weight := map_option (\<lambda>w. w + beta H * F H) (weight a)\<rparr>)
                        (take k order) @ drop k order,
                    fodder := fodder c - real k * F H\<rparr>, g')"
    using s k(2) by (simp add: feed_animals_def)
  show ?thesis using s m k(1,3,4) f nonneg le by blast
qed

text \<open>C7, witness: two herbivores before 15 units of fodder.\<close>

theorem feed_animals_fodder_witness:
  "\<exists>order g' k.
      shuffle (animal_list \<lparr>fodder = 15, geography = CHR ''L'',
                 animal_list = [\<lparr>age = 5, weight = Some 20, moved = False, ident = 3\<rparr>,
                                \<lparr>age = 6, weight = Some 30, moved = False, ident = 4\<rparr>],
                 Carnivores_list = []\<rparr>)
        \<lparr>uniforms = sconst 0, normals = sconst 0, integers = sconst 0\<rparr> = (order, g')
    \<and> mset order = mset (animal_list \<lparr>fodder = 15, geography = CHR ''L'',
                 animal_list = [\<lparr>age = 5, weight = Some 20, moved = False, ident = 3\<rparr>,
                                \<lparr>age = 6, weight = Some 30, moved = False, ident = 4\<rparr>],
                 Carnivores_list = []\<rparr>)
    \<and> k \<le> length order
    \<and> feed_animals Herbivores_parameter
          \<lparr>fodder = 15, geography = CHR ''L'',
             animal_list = [\<lparr>age = 5, weight = Some 20, moved = False, ident = 3\<rparr>,
                            \<lparr>age = 6, weight = Some 30, moved = False, ident = 4\<rparr>],
             Carnivores_list = []\<rparr>
          \<lparr>uniforms = sconst 0, normals = sconst 0, integers = sconst 0\<rparr> =
        Inr (\<lparr>fodder = 15, geography = CHR ''L'',
                animal_list = [\<lparr>age = 5, weight = Some 20, moved = False, ident = 3\<rparr>,
                               \<lparr>age = 6, weight = Some 30, moved = False, ident = 4\<rparr>],
                Carnivores_list = []\<rparr>
              \<lparr>animal_list :=
                 map (\<lambda>a. a\<lparr>weight := map_option
                        (\<lambda>w. w + beta Herbivores_parameter * F Herbivores_parameter) (weight a)\<rparr>)
                   (take k order) @ drop k order,
               fodder := fodder \<lparr>fodder = 15, geography = CHR ''L'',
                 animal_list = [\<lparr>age = 5, weight = Some 20, moved = False, ident = 3\<rparr>,
                                \<lparr>age = 6, weight = Some 30, moved = False, ident = 4\<rparr>],
                 Carnivores_list = []\<rparr> - real k * F Herbivores_parameter\<rparr>, g')
    \<and> (\<forall>i<k. F Herbivores_parameter \<le> fodder \<lparr>fodder = 15, geography = CHR ''L'',
                 animal_list = [\<lparr>age = 5, weight = Some 20, moved = False, ident = 3\<rparr>,
                                \<lparr>age = 6, weight = Some 30, moved = False, ident = 4\<rparr>],
                 Carnivores_list = []\<rparr> - real i * F Herbivores_parameter)
    \<and> (k < length order \<longrightarrow> fodder \<lparr>fodder = 15, geography = CHR ''L'',
                 animal_list = [\<lparr>age = 5, weight = Some 20, moved = False, ident = 3\<rparr>,
                                \<lparr>age = 6, weight = Some 30, moved = False, ident = 4\<rparr>],
                 Carnivores_list = []\<rparr> - real k * F Herbivores_parameter < F Herbivores_parameter)
    \<and> (\<forall>i\<le>k. 0 \<le> fodder \<lparr>fodder = 15, geography = CHR ''L'',
                 animal_list = [\<lparr>age = 5, weight = Some 20, moved = False, ident = 3\<rparr>,
                                \<lparr>age = 6, weight = Some 30, moved = False, ident = 4\<rparr>],
                 Carnivores_list = []\<rparr> - real i * F Herbivores_parameter)
    \<and> real k * F Herbivores_parameter \<le> fodder \<lparr>fodder = 15, geography = CHR ''L'',
                 animal_list = [\<lparr>age = 5, weight = Some 20, moved = False, ident = 3\<rparr>,
                                \<lparr>age = 6, weight = Some 30, moved = False, ident = 4\<rparr>],
                 Carnivores_list = []\<rparr>"
  by (rule feed_animals_fodder) simp_all

subsection \<open>The birth phase of a cell\<close>

lemma birth_loop_spec:
  "birth_loop P seen xs babies g =
     (case spec_birth_phase P (length seen + length xs) xs g of
        Inl e \<Rightarrow> Inl e
      | Inr (rs, bs, g') \<Rightarrow> Inr (seen @ rs, babies @ bs, g'))"
proof (induction xs arbitrary: seen babies g)
  case Nil then show ?case by simp
next
  case (Cons a xs)
  show ?case
  proof (cases "procreate P a (length seen + length (a # xs)) g")
    case (Inl e) then show ?thesis by simp
  next
    case (Inr r)
    obtain baby a' g1 where r: "r = (baby, a', g1)" by (metis prod_cases3)
    have "birth_loop P (seen @ [a']) xs (case baby of None \<Rightarrow> babies | Some b \<Rightarrow> babies @ [b]) g1 =
      (case spec_birth_phase P (length (seen @ [a']) + length xs) xs g1 of
        Inl e \<Rightarrow> Inl e
      | Inr (rs, bs, g') \<Rightarrow> Inr ((seen @ [a']) @ rs, (case baby of None \<Rightarrow> babies | Some b \<Rightarrow> babies @ [b]) @ bs, g'))"
      by (rule Cons.IH)
    then show ?thesis using Inr r
      by (auto split: sum.splits option.splits)
  qed
qed

lemma spec_birth_phase_shape:
  "spec_birth_phase P N xs g = Inr (rs, bs, g') \<Longrightarrow>
     length rs = length xs \<and> length bs \<le> length xs
     \<and> (\<forall>i<length xs. \<exists>gi baby gi'. procreate P (xs ! i) N gi = Inr (baby, rs ! i, gi'))
     \<and> (\<forall>b\<in>set bs. \<exists>gi a a' gi'. a \<in> set xs \<and> procreate P a N gi = Inr (Some b, a', gi'))"
proof (induction xs arbitrary: g rs bs)
  case Nil then show ?case by simp
next
  case (Cons a xs)
  from Cons.prems obtain baby a' g1 where p: "procreate P a N g = Inr (baby, a', g1)"
    by (auto split: sum.splits)
  from Cons.prems p obtain rs' bs' where
    r: "spec_birth_phase P N xs g1 = Inr (rs', bs', g')"
       "rs = a' # rs'" "bs = (case baby of None \<Rightarrow> bs' | Some b \<Rightarrow> b # bs')"
    by (auto split: sum.splits)
  note ih = Cons.IH [OF r(1)]
  have 1: "length rs = length (a # xs)" using ih r(2) by simp
  have 2: "length bs \<le> length (a # xs)" using ih r(3) by (simp split: option.splits)
  have 3: "\<forall>i<length (a # xs). \<exists>gi baby gi'. procreate P ((a # xs) ! i) N gi = Inr (baby, rs ! i, gi')"
  proof (intro allI impI)
    fix i assume "i < length (a # xs)"
    then show "\<exists>gi baby gi'. procreate P ((a # xs) ! i) N gi = Inr (baby, rs ! i, gi')"
      using p ih r(2) by (cases i) auto
  qed
  have 4: "\<forall>b\<in>set bs. \<exists>gi a0 a' gi'. a0 \<in> set (a # xs) \<and> procreate P a0 N gi = Inr (Some b, a', gi')"
  proof
    fix b assume "b \<in> set bs"
    then consider "baby = Some b" | "b \<in> set bs'" using r(3) by (auto split: option.splits)
    then show "\<exists>gi a0 a' gi'. a0 \<in> set (a # xs) \<and> procreate P a0 N gi = Inr (Some b, a', gi')"
    proof cases
      case 1 then show ?thesis using p by (metis list.set_intros(1))
    next
      case 2 then show ?thesis using ih by (metis list.set_intros(2))
    qed
  qed
  show ?case using 1 2 3 4 by blast
qed

text \<open>
  C9. \<open>herbivore_birth\<close> and \<open>carnivore_birth\<close>, which read the length of the resident
  list in every round, do what the birth phase of the specification does with the count
  \<open>N\<close> taken before the phase: every resident attempts once with that same \<open>N\<close>, the
  residents keep their places, and the newborns, each the result of some resident's attempt
  with \<open>N\<close>, come after all of them and attempt nothing.
\<close>

theorem birth_phase_original_count:
  "herbivore_birth H c g =
     (case spec_birth_phase H (length (animal_list c)) (animal_list c) g of
        Inl e \<Rightarrow> Inl e
      | Inr (rs, bs, g') \<Rightarrow> Inr (bs, c\<lparr>animal_list := rs @ bs\<rparr>, g'))
   \<and> carnivore_birth P c g =
     (case spec_birth_phase P (length (Carnivores_list c)) (Carnivores_list c) g of
        Inl e \<Rightarrow> Inl e
      | Inr (rs, bs, g') \<Rightarrow> Inr (bs, c\<lparr>Carnivores_list := rs @ bs\<rparr>, g'))
   \<and> (spec_birth_phase Q N xs g = Inr (rs, bs, g') \<longrightarrow>
        length rs = length xs \<and> length bs \<le> length xs
      \<and> (\<forall>i<length xs. \<exists>gi baby gi'. procreate Q (xs ! i) N gi = Inr (baby, rs ! i, gi'))
      \<and> (\<forall>b\<in>set bs. \<exists>gi a a' gi'. a \<in> set xs \<and> procreate Q a N gi = Inr (Some b, a', gi')))"
proof (intro conjI impI)
  show "herbivore_birth H c g =
     (case spec_birth_phase H (length (animal_list c)) (animal_list c) g of
        Inl e \<Rightarrow> Inl e
      | Inr (rs, bs, g') \<Rightarrow> Inr (bs, c\<lparr>animal_list := rs @ bs\<rparr>, g'))"
    by (simp add: herbivore_birth_def birth_loop_spec split: sum.splits)
next
  show "carnivore_birth P c g =
     (case spec_birth_phase P (length (Carnivores_list c)) (Carnivores_list c) g of
        Inl e \<Rightarrow> Inl e
      | Inr (rs, bs, g') \<Rightarrow> Inr (bs, c\<lparr>Carnivores_list := rs @ bs\<rparr>, g'))"
    by (simp add: carnivore_birth_def birth_loop_spec split: sum.splits)
next
  assume a: "spec_birth_phase Q N xs g = Inr (rs, bs, g')"
  show "length rs = length xs" using spec_birth_phase_shape [OF a] by blast
  show "length bs \<le> length xs" using spec_birth_phase_shape [OF a] by blast
  show "\<forall>i<length xs. \<exists>gi baby gi'. procreate Q (xs ! i) N gi = Inr (baby, rs ! i, gi')"
    using spec_birth_phase_shape [OF a] by blast
  show "\<forall>b\<in>set bs. \<exists>gi a a' gi'. a \<in> set xs \<and> procreate Q a N gi = Inr (Some b, a', gi')"
    using spec_birth_phase_shape [OF a] by blast
qed

text \<open>C9, witness: a cell with one herbivore of age 1, which cannot give birth.\<close>

theorem birth_phase_original_count_witness:
  "herbivore_birth Herbivores_parameter
      \<lparr>fodder = 0, geography = CHR ''L'',
         animal_list = [\<lparr>age = 1, weight = Some 50, moved = False, ident = 3\<rparr>],
         Carnivores_list = []\<rparr>
      \<lparr>uniforms = sconst 0, normals = sconst 0, integers = sconst 0, next_id = 7\<rparr>
    = Inr ([],
           \<lparr>fodder = 0, geography = CHR ''L'',
              animal_list = [\<lparr>age = 1, weight = Some 50, moved = False, ident = 3\<rparr>],
              Carnivores_list = []\<rparr>,
           \<lparr>uniforms = sconst 0, normals = sconst 0, integers = sconst 0, next_id = 7\<rparr>)
   \<and> length [\<lparr>age = 1, weight = Some 50, moved = False, ident = 3\<rparr>] = 1
   \<and> (\<exists>gi baby gi'.
         procreate Herbivores_parameter \<lparr>age = 1, weight = Some 50, moved = False, ident = 3\<rparr> 1 gi
           = Inr (baby, \<lparr>age = 1, weight = Some 50, moved = False, ident = 3\<rparr>, gi'))"
proof -
  let ?g = "\<lparr>uniforms = sconst 0, normals = sconst 0, integers = sconst 0, next_id = 7\<rparr>"
  let ?a = "\<lparr>age = 1, weight = Some 50, moved = False, ident = 3\<rparr>"
  let ?c = "\<lparr>fodder = 0, geography = CHR ''L'', animal_list = [?a], Carnivores_list = []\<rparr>"
  have p: "procreate Herbivores_parameter ?a (Suc 0) ?g = Inr (None, ?a, ?g)"
    by (simp add: procreate_def fitness_def choices_bool_eq Herbivores_parameter_def
          power2_eq_square)
  have s: "spec_birth_phase Herbivores_parameter 1 [?a] ?g = Inr ([?a], [], ?g)"
    by (simp add: p)
  note t = birth_phase_original_count [where H = Herbivores_parameter and c = ?c and g = ?g
      and P = Carnivores_parameter and Q = Herbivores_parameter and N = 1 and xs = "[?a]"
      and rs = "[?a]" and bs = "[]" and g' = ?g]
  have 1: "herbivore_birth Herbivores_parameter ?c ?g = Inr ([], ?c, ?g)"
    using t s by simp
  have 2: "\<forall>i<length [?a]. \<exists>gi baby gi'.
             procreate Herbivores_parameter ([?a] ! i) 1 gi = Inr (baby, [?a] ! i, gi')"
    using t s by blast
  then have 3: "\<exists>gi baby gi'. procreate Herbivores_parameter ?a 1 gi = Inr (baby, ?a, gi')"
    by auto
  show ?thesis using 1 3 by simp
qed

subsection \<open>Changing the parameter tables\<close>

lemma update_para_keys_char:
  "fst (update_para_keys params t) =
      (if \<exists>key\<in>set (map fst params). key \<notin> dom t then Some ValueError else None)
   \<and> ((\<forall>key\<in>set (map fst params). key \<in> dom t) \<longrightarrow>
         snd (update_para_keys params t) = set_params params t)"
proof (induction params arbitrary: t)
  case Nil then show ?case by simp
next
  case (Cons kv params)
  obtain key v where kv: "kv = (key, v)" by (cases kv)
  show ?case
  proof (cases "key \<in> dom t")
    case False
    then show ?thesis using kv by auto
  next
    case True
    define t' where "t' = t(key \<mapsto> v)"
    have d: "dom t' = dom t" using True by (auto simp: t'_def)
    have u: "update_para_keys (kv # params) t = update_para_keys params t'"
      using True kv by (simp add: t'_def)
    have sp: "set_params (kv # params) t = set_params params t'"
      using kv by (simp add: t'_def)
    have m: "(\<exists>k\<in>set (map fst (kv # params)). k \<notin> dom t)
               = (\<exists>k\<in>set (map fst params). k \<notin> dom t)"
      using True kv by auto
    have m2: "(\<forall>k\<in>set (map fst (kv # params)). k \<in> dom t)
               = (\<forall>k\<in>set (map fst params). k \<in> dom t)"
      using True kv by auto
    show ?thesis
      unfolding u sp m m2 using Cons.IH [of t'] unfolding d .
  qed
qed

lemma update_para_values_char:
  "update_para_values vs = (if \<exists>v\<in>set vs. v < 0 then Some ValueError else None)"
  by (induction vs) auto

text \<open>
  C3, as the code has it. \<open>update_para\<close>, and with it \<open>set_animal_parameters\<close> for
  either species, raises \<^verbatim>\<open>ValueError\<close> exactly when the dictionary holds an unknown key or
  a negative value, and an accepted dictionary is applied in full. \<open>update_cell_para\<close>, and
  with it \<open>set_landscape_parameters\<close>, raises \<^verbatim>\<open>ValueError\<close> when the first value of the
  dictionary is negative, and then leaves the landscape table as it was.
\<close>

theorem update_para_rejects:
  "(fst (update_para params t) = Some ValueError \<longleftrightarrow>
       (\<exists>key\<in>set (map fst params). key \<notin> dom t) \<or> (\<exists>v\<in>set (map snd params). v < 0))
   \<and> (fst (update_para params t) \<noteq> Some ValueError \<longrightarrow>
         update_para params t = (None, set_params params t))
   \<and> (fst (set_animal_parameters ''Herbivore'' params T) = Some ValueError \<longleftrightarrow>
       (\<exists>key\<in>set (map fst params). key \<notin> dom (herbivores T))
         \<or> (\<exists>v\<in>set (map snd params). v < 0))
   \<and> (fst (set_animal_parameters ''Carnivore'' params T) = Some ValueError \<longleftrightarrow>
       (\<exists>key\<in>set (map fst params). key \<notin> dom (carnivores T))
         \<or> (\<exists>v\<in>set (map snd params). v < 0))
   \<and> (params \<noteq> [] \<and> snd (hd params) < 0 \<longrightarrow>
         update_cell_para landscape params PC = (Some ValueError, PC)
       \<and> ((landscape = ''L'' \<or> landscape = ''H'') \<longrightarrow>
            set_landscape_parameters landscape params T = (Some ValueError, T)))"
proof -
  have k: "fst (update_para_keys ps t') =
      (if \<exists>key\<in>set (map fst ps). key \<notin> dom t' then Some ValueError else None)" for ps t'
    using update_para_keys_char [of ps t'] by blast
  have s: "(\<forall>key\<in>set (map fst params). key \<in> dom t) \<Longrightarrow>
         snd (update_para_keys params t) = set_params params t"
    using update_para_keys_char [of params t] by blast
  have 1: "fst (update_para ps t') = Some ValueError \<longleftrightarrow>
       (\<exists>key\<in>set (map fst ps). key \<notin> dom t') \<or> (\<exists>v\<in>set (map snd ps). v < 0)" for ps t'
    using k [of ps t']
    by (cases "update_para_keys ps t'")
       (auto simp: update_para_def update_para_values_char split: option.splits if_splits)
  have 2: "fst (update_para params t) \<noteq> Some ValueError \<longrightarrow>
         update_para params t = (None, set_params params t)"
  proof
    assume a: "fst (update_para params t) \<noteq> Some ValueError"
    then have n: "\<forall>key\<in>set (map fst params). key \<in> dom t" "\<not> (\<exists>v\<in>set (map snd params). v < 0)"
      using 1 [of params t] by auto
    have "update_para_keys params t = (None, set_params params t)"
      using k [of params t] s n(1) by (cases "update_para_keys params t") auto
    then show "update_para params t = (None, set_params params t)"
      using n(2) by (simp add: update_para_def update_para_values_char)
  qed
  have 3: "fst (set_animal_parameters ''Herbivore'' params T) = fst (update_para params (herbivores T))"
    by (simp add: set_animal_parameters_def split: prod.splits)
  have 4: "fst (set_animal_parameters ''Carnivore'' params T) = fst (update_para params (carnivores T))"
    by (simp add: set_animal_parameters_def split: prod.splits)
  have 5: "params \<noteq> [] \<and> snd (hd params) < 0 \<longrightarrow>
         update_cell_para landscape params PC = (Some ValueError, PC)
       \<and> ((landscape = ''L'' \<or> landscape = ''H'') \<longrightarrow>
            set_landscape_parameters landscape params T = (Some ValueError, T))"
    by (cases params) (auto simp: update_cell_para_def set_landscape_parameters_def)
  show ?thesis using 1 [of params t] 2 3 4 1 [of params "herbivores T"] 1 [of params "carnivores T"] 5
    by presburger
qed

text \<open>C3, witness: a negative value, an unknown key, a valid update, a negative \<open>f_max\<close>.\<close>

theorem update_para_rejects_witness:
  "fst (update_para [(''beta'', - 1)] Herbivores_parameter_dict) = Some ValueError
   \<and> fst (update_para [(''X'', 100)] Herbivores_parameter_dict) = Some ValueError
   \<and> update_para [(''beta'', 1 / 2)] Herbivores_parameter_dict
       = (None, set_params [(''beta'', 1 / 2)] Herbivores_parameter_dict)
   \<and> update_cell_para ''H'' [(''f_max'', - 1)] ParamCell = (Some ValueError, ParamCell)"
proof -
  note t = update_para_rejects [where t = Herbivores_parameter_dict and PC = ParamCell
              and landscape = "''H''"]
  have d: "''beta'' \<in> dom Herbivores_parameter_dict" "''X'' \<notin> dom Herbivores_parameter_dict"
    by (simp_all add: Herbivores_parameter_dict_def)
  have 1: "fst (update_para [(''beta'', - 1)] Herbivores_parameter_dict) = Some ValueError"
    using t [where params = "[(''beta'', - 1)]"] by simp
  have 2: "fst (update_para [(''X'', 100)] Herbivores_parameter_dict) = Some ValueError"
    using t [where params = "[(''X'', 100)]"] d by simp
  have 3: "update_para [(''beta'', 1 / 2)] Herbivores_parameter_dict
       = (None, set_params [(''beta'', 1 / 2)] Herbivores_parameter_dict)"
    using t [where params = "[(''beta'', 1 / 2)]"] d by simp
  have 4: "update_cell_para ''H'' [(''f_max'', - 1)] ParamCell = (Some ValueError, ParamCell)"
    using t [where params = "[(''f_max'', - 1)]"] by simp
  show ?thesis using 1 2 3 4 by blast
qed

text \<open>
  C3, counterexample to "on a rejection the table is left unchanged" and to "every
  operation rejects": \<open>update_para\<close> has written \<open>beta = -1\<close> into the herbivores' table
  when it raises; \<open>set_params\<close> stores an unknown key with a negative value; and
  \<open>update_cell_para\<close> accepts a dictionary with an unknown key and a negative second value.
\<close>

theorem update_para_applied_counterexample:
  "update_para [(''beta'', - 1)] Herbivores_parameter_dict
      = (Some ValueError, Herbivores_parameter_dict(''beta'' \<mapsto> - 1))
   \<and> (Herbivores_parameter_dict(''beta'' \<mapsto> - 1)) ''beta'' \<noteq> Herbivores_parameter_dict ''beta''
   \<and> set_params [(''X'', - 1)] Herbivores_parameter_dict ''X'' = Some (- 1)
   \<and> update_cell_para ''H'' [(''f_max'', 10), (''F_max'', - 1)] ParamCell
      = (None, ParamCell\<lparr>f_max_H := 10\<rparr>)"
proof -
  have d: "''beta'' \<in> dom Herbivores_parameter_dict"
    by (simp add: Herbivores_parameter_dict_def)
  have 1: "update_para [(''beta'', - 1)] Herbivores_parameter_dict
      = (Some ValueError, Herbivores_parameter_dict(''beta'' \<mapsto> - 1))"
    using d by (simp add: update_para_def)
  have 2: "(Herbivores_parameter_dict(''beta'' \<mapsto> - 1)) ''beta'' \<noteq> Herbivores_parameter_dict ''beta''"
    by (simp add: Herbivores_parameter_dict_def)
  have 3: "set_params [(''X'', - 1)] Herbivores_parameter_dict ''X'' = Some (- 1)"
    by simp
  have 4: "update_cell_para ''H'' [(''f_max'', 10), (''F_max'', - 1)] ParamCell
      = (None, ParamCell\<lparr>f_max_H := 10\<rparr>)"
    by (simp add: update_cell_para_def)
  show ?thesis using 1 2 3 4 by blast
qed

subsection \<open>Map.add\_fauna and the population count\<close>

text \<open>
  C2, the code at a population of two records. On the map \<^verbatim>\<open>WWW/WLW/WWW\<close>, two records
  for location (2, 2) with one herbivore each put two herbivores into the cell, but
  \<open>add_fauna\<close> returns the counts (1, 0) of the last record only, and a simulation built
  with this initial population answers \<open>num_animals = 1\<close> in year 0.
\<close>

theorem add_fauna_last_record_only:
  "map_sum id (\<lambda>(counts, m', g').
       (counts, length (animal_list (cells_array m' (1, 1))),
                length (Carnivores_list (cells_array m' (1, 1)))))
     (add_fauna
        [\<lparr>loc = (2, 2), pop = [\<lparr>species = ''Herbivore'', fauna_age = 5, fauna_weight = Some 20\<rparr>]\<rparr>,
         \<lparr>loc = (2, 2), pop = [\<lparr>species = ''Herbivore'', fauna_age = 5, fauna_weight = Some 20\<rparr>]\<rparr>]
        (Map_init (''WWW'' @ [CHR 0x0A] @ ''WLW'' @ [CHR 0x0A] @ ''WWW''))
        \<lparr>uniforms = sconst 0, normals = sconst 0, integers = sconst 0, next_id = 0\<rparr>)
     = Inr ((1, 0), 2, 0)
   \<and> map_sum id (\<lambda>(sim, g').
       (num_animals sim, year sim, length (animal_list (cells_array (map_instance sim) (1, 1)))))
     (BioSim_init (''WWW'' @ [CHR 0x0A] @ ''WLW'' @ [CHR 0x0A] @ ''WWW'')
        [\<lparr>loc = (2, 2), pop = [\<lparr>species = ''Herbivore'', fauna_age = 5, fauna_weight = Some 20\<rparr>]\<rparr>,
         \<lparr>loc = (2, 2), pop = [\<lparr>species = ''Herbivore'', fauna_age = 5, fauna_weight = Some 20\<rparr>]\<rparr>]
        \<lparr>uniforms = sconst 0, normals = sconst 0, integers = sconst 0, next_id = 0\<rparr>)
     = Inr (1, 0, 2)"
  by (simp add: add_fauna_def Map_init_def shape_def island_map_array_def np_index_def
       init_cells_array_def Cell_init_def Animal_init_def Let_def BioSim_init_def
       map_is_legal_def add_population_def num_animals_def)

subsection \<open>The migration phase\<close>

lemma choices_uniform_mem:
  assumes "choices_uniform xs g = Inr (x, g')"
  shows "x \<in> set xs"
proof -
  define idx where "idx = \<lfloor>shd (uniforms g) * real_of_int (int (length xs))\<rfloor>"
  from assms consider
      "0 \<le> idx" "idx < int (length xs)" "x = xs ! nat idx"
    | "- int (length xs) \<le> idx" "idx < 0" "x = xs ! nat (int (length xs) + idx)"
    unfolding choices_uniform_def random_float_def Let_def idx_def
    by (auto split: if_splits)
  then show ?thesis
  proof cases
    case 1
    then have "nat idx < length xs" by linarith
    then show ?thesis using 1(3) by simp
  next
    case 2
    then have "nat (int (length xs) + idx) < length xs" by linarith
    then show ?thesis using 2(3) by simp
  qed
qed

lemma Animal_migrate_dest:
  "Animal_migrate P a nbrs g = Inr (Some d, g') \<Longrightarrow> d \<in> set nbrs"
proof -
  assume a: "Animal_migrate P a nbrs g = Inr (Some d, g')"
  then obtain g2 where "choices_uniform (map Some nbrs @ replicate (4 - length nbrs) None) g2 = Inr (Some d, g')"
    by (auto simp: Animal_migrate_def Let_def split: sum.splits prod.splits if_splits)
  then have "Some d \<in> set (map Some nbrs @ replicate (4 - length nbrs) None)"
    by (rule choices_uniform_mem)
  then show ?thesis by auto
qed

lemma migration_loop_frame:
  assumes "migration_loop P arrive nbrs rest stay cells g = Inr (stay', cells', g')"
    and "\<And>a c. h (arrive a c) = h c"
  shows "h (cells' q) = h (cells q)"
  using assms(1)
proof (induction rest arbitrary: stay cells g)
  case Nil then show ?case by simp
next
  case (Cons a rest)
  show ?case
  proof (cases "moved a")
    case True
    then show ?thesis using Cons by simp
  next
    case False
    from Cons.prems False obtain r g1 where am: "Animal_migrate P a nbrs g = Inr (r, g1)"
      by (auto split: sum.splits)
    show ?thesis
    proof (cases r)
      case None
      then show ?thesis using Cons False am by simp
    next
      case (Some d)
      let ?cells = "cells(d := arrive (a\<lparr>moved := True\<rparr>) (cells d))"
      have "migration_loop P arrive nbrs rest stay ?cells g1 = Inr (stay', cells', g')"
        using Cons.prems False am Some by simp
      then have "h (cells' q) = h (?cells q)" by (rule Cons.IH)
      then show ?thesis using assms(2) by simp
    qed
  qed
qed

lemma migration_loop_outside:
  assumes "migration_loop P arrive nbrs rest stay cells g = Inr (stay', cells', g')"
    and "q \<notin> set nbrs"
  shows "cells' q = cells q"
  using assms(1)
proof (induction rest arbitrary: stay cells g)
  case Nil then show ?case by simp
next
  case (Cons a rest)
  show ?case
  proof (cases "moved a")
    case True
    then show ?thesis using Cons by simp
  next
    case False
    from Cons.prems False obtain r g1 where am: "Animal_migrate P a nbrs g = Inr (r, g1)"
      by (auto split: sum.splits)
    show ?thesis
    proof (cases r)
      case None
      then show ?thesis using Cons False am by simp
    next
      case (Some d)
      let ?cells = "cells(d := arrive (a\<lparr>moved := True\<rparr>) (cells d))"
      have d: "d \<in> set nbrs" using am Some Animal_migrate_dest by blast
      have "migration_loop P arrive nbrs rest stay ?cells g1 = Inr (stay', cells', g')"
        using Cons.prems False am Some by simp
      then have "cells' q = ?cells q" by (rule Cons.IH)
      then show ?thesis using d assms(2) by auto
    qed
  qed
qed

lemma tot_upd_in:
  assumes "finite A" "d \<in> A"
  shows "tot kind A (cells(d := c)) + mset (map unflag (kind (cells d)))
           = tot kind A cells + mset (map unflag (kind c))"
proof -
  have 1: "tot kind A (cells(d := c)) = mset (map unflag (kind c)) + tot kind (A - {d}) (cells(d := c))"
    unfolding tot_def using assms by (subst sum.remove [of A d]) auto
  have 2: "tot kind A cells = mset (map unflag (kind (cells d))) + tot kind (A - {d}) cells"
    unfolding tot_def using assms by (subst sum.remove [of A d]) auto
  have 3: "tot kind (A - {d}) (cells(d := c)) = tot kind (A - {d}) cells"
    unfolding tot_def by (rule sum.cong) auto
  show ?thesis unfolding 1 2 3 by (simp add: ac_simps)
qed

lemma tot_upd_out: "d \<notin> A \<Longrightarrow> tot kind A (cells(d := c)) = tot kind A cells"
  unfolding tot_def by (rule sum.cong) auto

lemma migration_loop_tot:
  assumes "migration_loop P arrive nbrs rest stay cells g = Inr (stay', cells', g')"
    and "finite A" "set nbrs \<subseteq> A"
    and "\<And>a c. kind (arrive a c) = kind c @ [a]"
  shows "mset (map unflag stay') + tot kind A cells'
           = mset (map unflag rest) + mset (map unflag stay) + tot kind A cells"
  using assms(1)
proof (induction rest arbitrary: stay cells g)
  case Nil then show ?case by simp
next
  case (Cons a rest)
  show ?case
  proof (cases "moved a")
    case True
    then have "migration_loop P arrive nbrs rest (stay @ [a]) cells g = Inr (stay', cells', g')"
      using Cons.prems by simp
    from Cons.IH [OF this] show ?thesis by (simp add: ac_simps)
  next
    case False
    from Cons.prems False obtain r g1 where am: "Animal_migrate P a nbrs g = Inr (r, g1)"
      by (auto split: sum.splits)
    show ?thesis
    proof (cases r)
      case None
      then have "migration_loop P arrive nbrs rest (stay @ [a]) cells g1 = Inr (stay', cells', g')"
        using Cons.prems False am by simp
      from Cons.IH [OF this] show ?thesis by (simp add: ac_simps)
    next
      case (Some d)
      let ?c = "arrive (a\<lparr>moved := True\<rparr>) (cells d)"
      let ?cells = "cells(d := ?c)"
      have d: "d \<in> A" using am Some Animal_migrate_dest assms(3) by blast
      have "migration_loop P arrive nbrs rest stay ?cells g1 = Inr (stay', cells', g')"
        using Cons.prems False am Some by simp
      from Cons.IH [OF this]
      have ih: "mset (map unflag stay') + tot kind A cells'
           = mset (map unflag rest) + mset (map unflag stay) + tot kind A ?cells" .
      have u: "unflag (a\<lparr>moved := True\<rparr>) = unflag a" by (simp add: unflag_def)
      have "tot kind A ?cells + mset (map unflag (kind (cells d)))
              = tot kind A cells + mset (map unflag (kind ?c))"
        using assms(2) d by (rule tot_upd_in)
      then have "tot kind A ?cells + mset (map unflag (kind (cells d)))
              = tot kind A cells + (mset (map unflag (kind (cells d))) + {# unflag a #})"
        by (simp add: assms(4) u)
      then have "tot kind A ?cells = tot kind A cells + {# unflag a #}"
        by (simp add: ac_simps)
      then show ?thesis using ih by (simp add: ac_simps)
    qed
  qed
qed

lemma came_from_moved:
  assumes "came_from kind m0 p a" "\<not> moved a" "d \<in> set (get_neighbors m0 (fst p) (snd p))"
  shows "came_from kind m0 d (a\<lparr>moved := True\<rparr>)"
proof -
  from assms(1) obtain p0 a0 where
    o: "p0 \<in> set (positions m0)" "a0 \<in> set (kind (cells_array m0 p0))" "unflag a = unflag a0"
       "p = p0 \<and> a = a0 \<or> p \<in> set (get_neighbors m0 (fst p0) (snd p0)) \<and> \<not> moved a0 \<and> moved a"
    unfolding came_from_def by blast
  then have e: "p = p0" "a = a0" using assms(2) by auto
  have "unflag (a\<lparr>moved := True\<rparr>) = unflag a" by (simp add: unflag_def)
  then show ?thesis
    unfolding came_from_def using o(1,2) e assms(2,3) by auto
qed

lemma migration_loop_came:
  assumes "migration_loop P arrive nbrs rest stay cells g = Inr (stay', cells', g')"
    and "\<And>a c. kind (arrive a c) = kind c @ [a]"
    and "nbrs = get_neighbors m0 (fst p) (snd p)"
    and "\<forall>a\<in>set rest \<union> set stay. came_from kind m0 p a"
    and "\<forall>q\<in>A. \<forall>a\<in>set (kind (cells q)). came_from kind m0 q a"
  shows "(\<forall>a\<in>set stay'. came_from kind m0 p a)
       \<and> (\<forall>q\<in>A. \<forall>a\<in>set (kind (cells' q)). came_from kind m0 q a)"
  using assms(1,4,5)
proof (induction rest arbitrary: stay cells g)
  case Nil then show ?case by simp
next
  case (Cons a rest)
  show ?case
  proof (cases "moved a")
    case True
    then have l: "migration_loop P arrive nbrs rest (stay @ [a]) cells g = Inr (stay', cells', g')"
      using Cons.prems(1) by simp
    show ?thesis
      by (rule Cons.IH [OF l]) (use Cons.prems in auto)
  next
    case False
    from Cons.prems(1) False obtain r g1 where am: "Animal_migrate P a nbrs g = Inr (r, g1)"
      by (auto split: sum.splits)
    show ?thesis
    proof (cases r)
      case None
      then have l: "migration_loop P arrive nbrs rest (stay @ [a]) cells g1 = Inr (stay', cells', g')"
        using Cons.prems(1) False am by simp
      show ?thesis
        by (rule Cons.IH [OF l]) (use Cons.prems in auto)
    next
      case (Some d)
      let ?cells = "cells(d := arrive (a\<lparr>moved := True\<rparr>) (cells d))"
      have l: "migration_loop P arrive nbrs rest stay ?cells g1 = Inr (stay', cells', g')"
        using Cons.prems(1) False am Some by simp
      have d: "d \<in> set (get_neighbors m0 (fst p) (snd p))"
        using am Some Animal_migrate_dest assms(3) by blast
      have ca: "came_from kind m0 p a" using Cons.prems(2) by simp
      have new: "came_from kind m0 d (a\<lparr>moved := True\<rparr>)"
        using ca False d by (rule came_from_moved)
      have inv: "\<forall>q\<in>A. \<forall>x\<in>set (kind (?cells q)). came_from kind m0 q x"
      proof (intro ballI)
        fix q x assume q: "q \<in> A" and x: "x \<in> set (kind (?cells q))"
        show "came_from kind m0 q x"
        proof (cases "q = d")
          case True
          then have "x \<in> set (kind (cells d)) \<or> x = a\<lparr>moved := True\<rparr>"
            using x by (auto simp: assms(2))
          then show ?thesis using True new Cons.prems(3) q by auto
        next
          case False
          then show ?thesis using x Cons.prems(3) q by simp
        qed
      qed
      show ?thesis
        by (rule Cons.IH [OF l]) (use Cons.prems(2) inv in auto)
    qed
  qed
qed

text \<open>One kind of resident of the cell at \<open>p\<close> migrates.\<close>

lemma kind_step:
  assumes loop: "migration_loop P arrive nbrs (kind (cells p)) [] cells g = Inr (stay', cells1, g1)"
    and A: "finite A" "p \<in> A" "set nbrs \<subseteq> A" "p \<notin> set nbrs"
    and arr: "\<And>a c. kind (arrive a c) = kind c @ [a]"
    and setk: "\<And>l c. kind (setk l c) = l"
  shows "tot kind A (cells1(p := setk stay' (cells1 p))) = tot kind A cells"
proof -
  have 1: "mset (map unflag stay') + tot kind A cells1
           = mset (map unflag (kind (cells p))) + tot kind A cells"
    using migration_loop_tot [OF loop A(1) A(3) arr] by simp
  have 2: "cells1 p = cells p" using loop A(4) by (rule migration_loop_outside)
  have "tot kind A (cells1(p := setk stay' (cells1 p))) + mset (map unflag (kind (cells1 p)))
          = tot kind A cells1 + mset (map unflag (kind (setk stay' (cells1 p))))"
    using A(1,2) by (rule tot_upd_in)
  then have "tot kind A (cells1(p := setk stay' (cells1 p))) + mset (map unflag (kind (cells p)))
          = tot kind A cells1 + mset (map unflag stay')"
    by (simp add: 2 setk)
  with 1 show ?thesis
    by (metis add.commute add_right_imp_eq add.assoc)
qed

lemma kind_step_came:
  assumes loop: "migration_loop P arrive nbrs (kind (cells p)) [] cells g = Inr (stay', cells1, g1)"
    and arr: "\<And>a c. kind (arrive a c) = kind c @ [a]"
    and setk: "\<And>l c. kind (setk l c) = l"
    and nb: "nbrs = get_neighbors m0 (fst p) (snd p)"
    and p: "p \<in> A"
    and inv: "\<forall>q\<in>A. \<forall>a\<in>set (kind (cells q)). came_from kind m0 q a"
  shows "\<forall>q\<in>A. \<forall>a\<in>set (kind ((cells1(p := setk stay' (cells1 p))) q)). came_from kind m0 q a"
proof -
  have "\<forall>a\<in>set (kind (cells p)) \<union> set []. came_from kind m0 p a" using inv p by simp
  from migration_loop_came [OF loop arr nb this inv]
  have r: "\<forall>a\<in>set stay'. came_from kind m0 p a"
          "\<forall>q\<in>A. \<forall>a\<in>set (kind (cells1 q)). came_from kind m0 q a" by auto
  show ?thesis
  proof (intro ballI)
    fix q a assume "q \<in> A" "a \<in> set (kind ((cells1(p := setk stay' (cells1 p))) q))"
    then show "came_from kind m0 q a"
      using r by (cases "q = p") (auto simp: setk)
  qed
qed

lemma kind_step_frame:
  assumes loop: "migration_loop P arrive nbrs xs [] cells g = Inr (stay', cells1, g1)"
    and "\<And>a c. h (arrive a c) = h c" and "\<And>l c. h (setk l c) = h c"
  shows "h ((cells1(p := setk stay' (cells1 p))) q) = h (cells q)"
  using migration_loop_frame [OF loop, of h] assms(2,3) by simp

lemma positions_product:
  "positions m = List.product [0 ..< fst (shape m)] [0 ..< snd (shape m)]"
  by (simp add: positions_def product_concat_map)

lemma positions_mem: "(i, j) \<in> set (positions m) \<longleftrightarrow> i < fst (shape m) \<and> j < snd (shape m)"
  by (auto simp: positions_product)

lemma positions_distinct: "distinct (positions m)"
  by (simp add: positions_product distinct_product)

lemma shape_cells [simp]: "shape (m\<lparr>cells_array := cells\<rparr>) = shape m"
  by (simp add: shape_def island_map_array_def)

lemma positions_cells [simp]: "positions (m\<lparr>cells_array := cells\<rparr>) = positions m"
  by (simp add: positions_def)

lemma get_neighbors_sub:
  assumes "(i, j) \<in> set (positions m)"
  shows "set (get_neighbors m i j) \<subseteq> set (positions m)" "(i, j) \<notin> set (get_neighbors m i j)"
  using assms
  by (auto simp: get_neighbors_def positions_mem Let_def split: if_splits)

lemma get_neighbors_geo:
  assumes "\<forall>q. geography (cells q) = geography (cells_array m q)"
  shows "get_neighbors (m\<lparr>cells_array := cells\<rparr>) i j = get_neighbors m i j"
  using assms by (simp add: get_neighbors_def Let_def)

lemma tot_cong: "(\<And>q. q \<in> A \<Longrightarrow> kind (c1 q) = kind (c2 q)) \<Longrightarrow> tot kind A c1 = tot kind A c2"
  unfolding tot_def by (rule sum.cong) auto

lemma all_residents_tot:
  "mset (map unflag (all_residents kind m)) = tot kind (set (positions m)) (cells_array m)"
proof -
  have "mset (map unflag (all_residents kind m))
          = (\<Sum>p\<leftarrow>positions m. mset (map unflag (kind (cells_array m p))))"
    by (simp add: all_residents_def map_concat mset_concat comp_def)
  also have "\<dots> = (\<Sum>p\<in>set (positions m). mset (map unflag (kind (cells_array m p))))"
    using positions_distinct by (rule sum_list_distinct_conv_sum_set)
  finally show ?thesis by (simp add: tot_def)
qed

lemma animal_migration_inv:
  assumes am: "animal_migration H P cells p nbrs g = Inr (cells', g')"
    and A: "finite A" "p \<in> A" "set nbrs \<subseteq> A" "p \<notin> set nbrs"
  shows "tot animal_list A cells' = tot animal_list A cells"
    and "tot Carnivores_list A cells' = tot Carnivores_list A cells"
    and "geography (cells' q) = geography (cells q)"
    and "nbrs = get_neighbors m0 (fst p) (snd p) \<Longrightarrow>
         \<forall>q\<in>A. \<forall>a\<in>set (animal_list (cells q)). came_from animal_list m0 q a \<Longrightarrow>
         \<forall>q\<in>A. \<forall>a\<in>set (animal_list (cells' q)). came_from animal_list m0 q a"
    and "nbrs = get_neighbors m0 (fst p) (snd p) \<Longrightarrow>
         \<forall>q\<in>A. \<forall>a\<in>set (Carnivores_list (cells q)). came_from Carnivores_list m0 q a \<Longrightarrow>
         \<forall>q\<in>A. \<forall>a\<in>set (Carnivores_list (cells' q)). came_from Carnivores_list m0 q a"
proof -
  let ?seth = "\<lambda>l c. c\<lparr>animal_list := l\<rparr>"
  let ?setc = "\<lambda>l c. c\<lparr>Carnivores_list := l\<rparr>"
  from am obtain stay_h cells1 g1 where
    l1: "migration_loop H arrive_herbivore nbrs (animal_list (cells p)) [] cells g
           = Inr (stay_h, cells1, g1)"
    unfolding animal_migration_def by (auto split: sum.splits)
  define cells2 where "cells2 = cells1(p := ?seth stay_h (cells1 p))"
  from am l1 obtain stay_c cells3 where
    l2: "migration_loop P arrive_carnivore nbrs (Carnivores_list (cells2 p)) [] cells2 g1
           = Inr (stay_c, cells3, g')"
    and c': "cells' = cells3(p := ?setc stay_c (cells3 p))"
    unfolding animal_migration_def cells2_def by (auto simp: Let_def split: sum.splits)
  have hh: "\<And>a c. animal_list (arrive_herbivore a c) = animal_list c @ [a]"
    by (simp add: arrive_herbivore_def)
  have hc: "\<And>a c. Carnivores_list (arrive_herbivore a c) = Carnivores_list c"
    by (simp add: arrive_herbivore_def)
  have hg: "\<And>a c. geography (arrive_herbivore a c) = geography c"
    by (simp add: arrive_herbivore_def)
  have cc: "\<And>a c. Carnivores_list (arrive_carnivore a c) = Carnivores_list c @ [a]"
    by (simp add: arrive_carnivore_def)
  have ch: "\<And>a c. animal_list (arrive_carnivore a c) = animal_list c"
    by (simp add: arrive_carnivore_def)
  have cg: "\<And>a c. geography (arrive_carnivore a c) = geography c"
    by (simp add: arrive_carnivore_def)
  \<comment> \<open>herbivore lists\<close>
  have h2: "tot animal_list A cells2 = tot animal_list A cells"
    unfolding cells2_def by (rule kind_step [OF l1 A hh]) simp
  have h3: "\<And>q. animal_list (cells' q) = animal_list (cells2 q)"
    unfolding c' by (rule kind_step_frame [OF l2]) (simp_all add: ch)
  show "tot animal_list A cells' = tot animal_list A cells"
    using tot_cong [of A animal_list cells' cells2] h3 h2 by simp
  \<comment> \<open>carnivore lists\<close>
  have k2: "\<And>q. Carnivores_list (cells2 q) = Carnivores_list (cells q)"
    unfolding cells2_def by (rule kind_step_frame [OF l1]) (simp_all add: hc)
  have k3: "tot Carnivores_list A cells' = tot Carnivores_list A cells2"
    unfolding c' by (rule kind_step [OF l2 A cc]) simp
  show "tot Carnivores_list A cells' = tot Carnivores_list A cells"
    using tot_cong [of A Carnivores_list cells2 cells] k2 k3 by simp
  \<comment> \<open>geography\<close>
  have g2: "geography (cells2 q) = geography (cells q)"
    unfolding cells2_def by (rule kind_step_frame [OF l1]) (simp_all add: hg)
  have g3: "geography (cells' q) = geography (cells2 q)"
    unfolding c' by (rule kind_step_frame [OF l2]) (simp_all add: cg)
  show "geography (cells' q) = geography (cells q)" using g2 g3 by simp
  \<comment> \<open>where the animals came from\<close>
  {
    assume nb: "nbrs = get_neighbors m0 (fst p) (snd p)"
      and inv: "\<forall>q\<in>A. \<forall>a\<in>set (animal_list (cells q)). came_from animal_list m0 q a"
    have "\<forall>q\<in>A. \<forall>a\<in>set (animal_list (cells2 q)). came_from animal_list m0 q a"
      unfolding cells2_def by (rule kind_step_came [OF l1 hh _ nb A(2) inv]) simp
    then show "\<forall>q\<in>A. \<forall>a\<in>set (animal_list (cells' q)). came_from animal_list m0 q a"
      using h3 by simp
  }
  {
    assume nb: "nbrs = get_neighbors m0 (fst p) (snd p)"
      and inv: "\<forall>q\<in>A. \<forall>a\<in>set (Carnivores_list (cells q)). came_from Carnivores_list m0 q a"
    have inv2: "\<forall>q\<in>A. \<forall>a\<in>set (Carnivores_list (cells2 q)). came_from Carnivores_list m0 q a"
      using inv k2 by simp
    show "\<forall>q\<in>A. \<forall>a\<in>set (Carnivores_list (cells' q)). came_from Carnivores_list m0 q a"
      unfolding c' by (rule kind_step_came [OF l2 cc _ nb A(2) inv2]) simp
  }
qed

lemma migrate_loop_inv:
  assumes "migrate_loop H P m ps cells g = Inr (cells', g')"
    and "set ps \<subseteq> set (positions m)"
    and "\<forall>q. geography (cells q) = geography (cells_array m q)"
  shows "tot animal_list (set (positions m)) cells' = tot animal_list (set (positions m)) cells
       \<and> tot Carnivores_list (set (positions m)) cells'
            = tot Carnivores_list (set (positions m)) cells
       \<and> ((\<forall>q\<in>set (positions m). \<forall>a\<in>set (animal_list (cells q)). came_from animal_list m q a)
            \<longrightarrow> (\<forall>q\<in>set (positions m). \<forall>a\<in>set (animal_list (cells' q)).
                    came_from animal_list m q a))
       \<and> ((\<forall>q\<in>set (positions m). \<forall>a\<in>set (Carnivores_list (cells q)).
               came_from Carnivores_list m q a)
            \<longrightarrow> (\<forall>q\<in>set (positions m). \<forall>a\<in>set (Carnivores_list (cells' q)).
                    came_from Carnivores_list m q a))"
  using assms
proof (induction ps arbitrary: cells g)
  case Nil then show ?case by simp
next
  case (Cons p ps)
  let ?A = "set (positions m)"
  show ?case
  proof (cases "geography (cells p) \<noteq> CHR ''W''")
    case False
    then have "migrate_loop H P m ps cells g = Inr (cells', g')" using Cons.prems(1) by simp
    from Cons.IH [OF this] Cons.prems(2,3) show ?thesis by simp
  next
    case True
    let ?nb = "get_neighbors (m\<lparr>cells_array := cells\<rparr>) (fst p) (snd p)"
    have nb: "?nb = get_neighbors m (fst p) (snd p)"
      using Cons.prems(3) by (rule get_neighbors_geo)
    from Cons.prems(1) True obtain cells1 g1 where
      am: "animal_migration H P cells p ?nb g = Inr (cells1, g1)"
      and rest: "migrate_loop H P m ps cells1 g1 = Inr (cells', g')"
      by (auto split: sum.splits)
    have pA: "p \<in> ?A" using Cons.prems(2) by simp
    then have pp: "(fst p, snd p) \<in> ?A" by simp
    have A: "finite ?A" "p \<in> ?A" "set ?nb \<subseteq> ?A" "p \<notin> set ?nb"
      using pA get_neighbors_sub [OF pp] nb by auto
    note inv = animal_migration_inv [OF am A]
    have geo1: "\<forall>q. geography (cells1 q) = geography (cells_array m q)"
      using inv(3) Cons.prems(3) by simp
    have ih: "tot animal_list ?A cells' = tot animal_list ?A cells1
       \<and> tot Carnivores_list ?A cells' = tot Carnivores_list ?A cells1
       \<and> ((\<forall>q\<in>?A. \<forall>a\<in>set (animal_list (cells1 q)). came_from animal_list m q a)
            \<longrightarrow> (\<forall>q\<in>?A. \<forall>a\<in>set (animal_list (cells' q)). came_from animal_list m q a))
       \<and> ((\<forall>q\<in>?A. \<forall>a\<in>set (Carnivores_list (cells1 q)). came_from Carnivores_list m q a)
            \<longrightarrow> (\<forall>q\<in>?A. \<forall>a\<in>set (Carnivores_list (cells' q)).
                    came_from Carnivores_list m q a))"
      using Cons.IH [OF rest _ geo1] Cons.prems(2) by simp
    show ?thesis
      using ih inv(1,2) inv(4) [OF nb] inv(5) [OF nb] by auto
  qed
qed

lemma came_from_start:
  "\<forall>q\<in>set (positions m). \<forall>a\<in>set (kind (cells_array m q)). came_from kind m q a"
  unfolding came_from_def by auto

text \<open>
  C5. Whenever \<open>migrate\<close> returns, the herbivores on the island are, flags apart, the same
  multiset as before, and so are the carnivores: no animal is lost, none is duplicated, and
  with distinct identities before, the identities are distinct after, so every animal is in
  exactly one resident list. Every animal is either still in its cell, as it was, or it was
  unflagged before, is flagged now and sits in one of the neighbours of its old cell: it has
  moved once, and a flagged animal is never moved.
\<close>

theorem migrate_keeps_animals:
  assumes "migrate H P m g = Inr (m', g')"
  shows "mset (map unflag (all_residents animal_list m'))
           = mset (map unflag (all_residents animal_list m))
       \<and> mset (map unflag (all_residents Carnivores_list m'))
           = mset (map unflag (all_residents Carnivores_list m))
       \<and> stayed_or_moved_once animal_list m m'
       \<and> stayed_or_moved_once Carnivores_list m m'
       \<and> (distinct (map ident (all_residents animal_list m @ all_residents Carnivores_list m))
            \<longrightarrow> distinct (map ident (all_residents animal_list m'
                                        @ all_residents Carnivores_list m')))"
proof -
  from assms obtain cells' where
    l: "migrate_loop H P m (positions m) (cells_array m) g = Inr (cells', g')"
    and m': "m' = m\<lparr>cells_array := cells'\<rparr>"
    unfolding migrate_def by (auto split: sum.splits)
  note inv = migrate_loop_inv [OF l subset_refl, simplified]
  have 1: "mset (map unflag (all_residents animal_list m'))
           = mset (map unflag (all_residents animal_list m))"
    unfolding all_residents_tot m' using inv by simp
  have 2: "mset (map unflag (all_residents Carnivores_list m'))
           = mset (map unflag (all_residents Carnivores_list m))"
    unfolding all_residents_tot m' using inv by simp
  have 3: "stayed_or_moved_once animal_list m m'"
    unfolding stayed_or_moved_once_def using inv came_from_start [of m animal_list]
    by (simp add: m')
  have 4: "stayed_or_moved_once Carnivores_list m m'"
    unfolding stayed_or_moved_once_def using inv came_from_start [of m Carnivores_list]
    by (simp add: m')
  have id: "\<And>xs. map ident xs = map ident (map unflag xs)"
    by (simp add: unflag_def comp_def)
  have "mset (map unflag (all_residents animal_list m' @ all_residents Carnivores_list m'))
          = mset (map unflag (all_residents animal_list m @ all_residents Carnivores_list m))"
    using 1 2 by simp
  then have "mset (map ident (map unflag (all_residents animal_list m' @ all_residents Carnivores_list m')))
          = mset (map ident (map unflag (all_residents animal_list m @ all_residents Carnivores_list m)))"
    by (metis mset_map)
  then have "mset (map ident (all_residents animal_list m' @ all_residents Carnivores_list m'))
          = mset (map ident (all_residents animal_list m @ all_residents Carnivores_list m))"
    using id by metis
  then have 5: "distinct (map ident (all_residents animal_list m @ all_residents Carnivores_list m))
            \<longrightarrow> distinct (map ident (all_residents animal_list m'
                                        @ all_residents Carnivores_list m'))"
    using mset_eq_imp_distinct_iff by blast
  show ?thesis using 1 2 3 4 5 by blast
qed

text \<open>
  C5, witness: on the map \<^verbatim>\<open>WWWW/WLLW/WWWW\<close> a herbivore that is certain to migrate
  (fitness 1/4, \<open>mu = 4\<close>) goes from cell (1, 1) to cell (1, 2) and stays there, although
  that cell is visited next.
\<close>

theorem migrate_keeps_animals_witness:
  "\<exists>m' g'.
     migrate (Herbivores_parameter\<lparr>phi_age := 0, phi_weight := 0, mu := 4\<rparr>) Carnivores_parameter
       ((Map_init (''WWWW'' @ [CHR 0x0A] @ ''WLLW'' @ [CHR 0x0A] @ ''WWWW''))
          \<lparr>cells_array := (init_cells_array
              (''WWWW'' @ [CHR 0x0A] @ ''WLLW'' @ [CHR 0x0A] @ ''WWWW''))
             ((1, 1) := \<lparr>fodder = 0, geography = CHR ''L'',
                          animal_list = [\<lparr>age = 5, weight = Some 40, moved = False, ident = 3\<rparr>],
                          Carnivores_list = []\<rparr>)\<rparr>)
       \<lparr>uniforms = sconst 0, normals = sconst 0, integers = sconst 0\<rparr> = Inr (m', g')
   \<and> animal_list (cells_array m' (1, 1)) = []
   \<and> animal_list (cells_array m' (1, 2)) = [\<lparr>age = 5, weight = Some 40, moved = True, ident = 3\<rparr>]
   \<and> mset (map unflag (all_residents animal_list m'))
        = {# \<lparr>age = 5, weight = Some 40, moved = False, ident = 3\<rparr> #}"
proof -
  let ?s = "''WWWW'' @ [CHR 0x0A] @ ''WLLW'' @ [CHR 0x0A] @ ''WWWW''"
  let ?a = "\<lparr>age = 5, weight = Some 40, moved = False, ident = 3\<rparr>"
  let ?m = "(Map_init ?s)\<lparr>cells_array := (init_cells_array ?s)
             ((1, 1) := \<lparr>fodder = 0, geography = CHR ''L'', animal_list = [?a],
                          Carnivores_list = []\<rparr>)\<rparr>"
  let ?H = "Herbivores_parameter\<lparr>phi_age := 0, phi_weight := 0, mu := 4\<rparr>"
  let ?g = "\<lparr>uniforms = sconst 0, normals = sconst 0, integers = sconst 0\<rparr>"
  have sh: "shape ?m = (3, 4)"
    by (simp add: shape_def island_map_array_def Map_init_def)
  have ps: "positions ?m = [(0,0),(0,1),(0,2),(0,3),(1,0),(1,1),(1,2),(1,3),
                            (2,0),(2,1),(2,2),(2,3)]"
    unfolding positions_def sh by (simp add: upt_rec)
  have fit: "fitness ?H ?a = Inr (1 / 4)"
    by (simp add: fitness_def fitness_calculation_def fitness_formula_def Herbivores_parameter_def)
  have mu: "mu ?H = 4" by simp
  have mig: "\<And>d. Animal_migrate ?H ?a [d] ?g = Inr (Some d, ?g)"
    unfolding Animal_migrate_def fit mu
    by (simp add: choices_bool_def random_float_def choices_uniform_def)
  obtain m' g' where r: "migrate ?H Carnivores_parameter ?m ?g = Inr (m', g')"
    and c1: "animal_list (cells_array m' (1, 1)) = []"
    and c2: "animal_list (cells_array m' (1, 2)) = [?a\<lparr>moved := True\<rparr>]"
    unfolding migrate_def ps
    by (simp add: animal_migration_def get_neighbors_def shape_def island_map_array_def mig
          init_cells_array_def Cell_init_def Map_init_def arrive_herbivore_def Let_def)
  note t = migrate_keeps_animals [OF r]
  have "all_residents animal_list ?m = [?a]"
    unfolding all_residents_def ps by (simp add: init_cells_array_def Cell_init_def)
  then have "mset (map unflag (all_residents animal_list m')) = {# ?a #}"
    using t by (simp add: unflag_def)
  then show ?thesis using r c1 c2 by auto
qed

subsection \<open>The annual cycle\<close>

lemma letter_cells [simp]: "letter (m\<lparr>cells_array := cells\<rparr>) = letter m"
  by (rule ext) (simp add: letter_def island_map_array_def)

lemma selected_cells [simp]: "selected keep (m\<lparr>cells_array := cells\<rparr>) = selected keep m"
  by (simp add: selected_def)
































end
